theory Spec2Isabelle
  imports Main "HOL-Library.Sublist"
begin

section \<open>Go values\<close>

text \<open>
  Go's \<^verbatim>\<open>int\<close> is a 64-bit two's complement integer on the platforms the tool is built
  for. It is modelled as an \<^typ>\<open>int\<close> in the range \<open>- 2^63 \<le> x < 2^63\<close>; every addition
  of the source is followed by \<open>wrap64\<close>, which is the wrap-around Go performs.
  A Go \<^verbatim>\<open>string\<close> is a sequence of bytes, here a \<^typ>\<open>string\<close>; the zero value is the
  empty string, the zero value of a slice is the empty list.
\<close>

definition wrap64 :: "int \<Rightarrow> int" where
  "wrap64 x = (x + 2 ^ 63) mod 2 ^ 64 - 2 ^ 63"

definition int64 :: "int \<Rightarrow> bool" where
  "int64 x = (- (2 ^ 63) \<le> x \<and> x < 2 ^ 63)"

text \<open>The verb \<^verbatim>\<open>%d\<close> of \<^verbatim>\<open>fmt\<close>: decimal digits, a minus sign for a negative number.\<close>

definition digit_char :: "nat \<Rightarrow> char" where
  "digit_char d = ''0123456789'' ! (d mod 10)"

fun digits :: "nat \<Rightarrow> string" where
  "digits n = (if n < 10 then [digit_char n] else digits (n div 10) @ [digit_char (n mod 10)])"

declare digits.simps [simp del]

definition fmt_d :: "int \<Rightarrow> string" where
  "fmt_d i = (if i < 0 then CHR ''-'' # digits (nat (- i)) else digits (nat i))"

text \<open>
  A Go \<^verbatim>\<open>error\<close>: the sentinel values of \<^verbatim>\<open>policy_errors.go\<close>, the values
  \<^verbatim>\<open>fmt.Errorf\<close> builds, which carry their formatted message (a wrapped error gives its
  message to the text), and the two errors of a \<^verbatim>\<open>context.Context\<close> that is done.
  \<open>NilPointerPanic\<close> stands for the run-time panic of a \<^verbatim>\<open>nil\<close> dereference. \<^verbatim>\<open>nil\<close> is
  \<open>None\<close> of \<open>error option\<close>.
\<close>

datatype error =
    ErrInvalidRunID
  | ErrInvalidJustification
  | ErrInvalidRunStatus
  | ErrNoPolicyCheck
  | ErrPolicyPending
  | ErrRunNotFound
  | ErrPermissionDenied
  | Errorf string
  | ContextCanceled
  | ContextDeadlineExceeded
  | NilPointerPanic

fun Error :: "error \<Rightarrow> string" where
  "Error ErrInvalidRunID = ''invalid run ID format''"
| "Error ErrInvalidJustification = ''justification is required''"
| "Error ErrInvalidRunStatus = ''run status does not allow this operation''"
| "Error ErrNoPolicyCheck = ''run has no policy evaluation''"
| "Error ErrPolicyPending = ''policy evaluation still in progress''"
| "Error ErrRunNotFound = ''run not found''"
| "Error ErrPermissionDenied = ''insufficient permissions for this operation''"
| "Error (Errorf msg) = msg"
| "Error ContextCanceled = ''context canceled''"
| "Error ContextDeadlineExceeded = ''context deadline exceeded''"
| "Error NilPointerPanic = ''runtime error: invalid memory address or nil pointer dereference''"

section \<open>The entities of \<^verbatim>\<open>internal/cloud\<close> and their validation\<close>

text \<open>
  \<^verbatim>\<open>validStringID\<close> matches the identifier against \<^verbatim>\<open>^[a-z]+-[a-zA-Z0-9]+$\<close>. The class
  \<^verbatim>\<open>[a-z]\<close> does not hold the hyphen, so a match splits the text in one way only: the
  longest prefix of lower-case letters (not empty), the hyphen, and a rest (not empty) of
  letters and digits. In Go's syntax \<^verbatim>\<open>$\<close> is the end of the text.
\<close>

definition is_lower :: "char \<Rightarrow> bool" where
  "is_lower c = (let n = (of_char c :: nat) in 97 \<le> n \<and> n \<le> 122)"

definition is_upper :: "char \<Rightarrow> bool" where
  "is_upper c = (let n = (of_char c :: nat) in 65 \<le> n \<and> n \<le> 90)"

definition is_digit :: "char \<Rightarrow> bool" where
  "is_digit c = (let n = (of_char c :: nat) in 48 \<le> n \<and> n \<le> 57)"

definition is_alnum :: "char \<Rightarrow> bool" where
  "is_alnum c = (is_lower c \<or> is_upper c \<or> is_digit c)"

definition validStringID :: "string \<Rightarrow> bool" where
  "validStringID s =
     (if s = [] then False
      else (case dropWhile is_lower s of
              [] \<Rightarrow> False
            | c # rest \<Rightarrow>
                takeWhile is_lower s \<noteq> [] \<and> c = CHR ''-'' \<and> rest \<noteq> [] \<and> list_all is_alnum rest))"

record PolicyDetail =
  pd_PolicyName :: string
  pd_EnforcementLevel :: string
  pd_Status :: string
  pd_Description :: string

record PolicyEvaluation =
  pe_RunID :: string
  pe_PolicyStageID :: string
  pe_PolicyCheckID :: string
  pe_TotalCount :: int
  pe_PassedCount :: int
  pe_AdvisoryFailedCount :: int
  pe_MandatoryFailedCount :: int
  pe_ErroredCount :: int
  pe_FailedPolicies :: "PolicyDetail list"
  pe_Status :: string
  pe_RequiresOverride :: bool

text \<open>The value \<^verbatim>\<open>&PolicyEvaluation{}\<close>: every field at its zero value.\<close>

definition PolicyEvaluation_zero :: PolicyEvaluation where
  "PolicyEvaluation_zero =
     \<lparr>pe_RunID = [], pe_PolicyStageID = [], pe_PolicyCheckID = [], pe_TotalCount = 0,
      pe_PassedCount = 0, pe_AdvisoryFailedCount = 0, pe_MandatoryFailedCount = 0,
      pe_ErroredCount = 0, pe_FailedPolicies = [], pe_Status = [],
      pe_RequiresOverride = False\<rparr>"

text \<open>\<^verbatim>\<open>func (pe *PolicyEvaluation) Validate() error\<close>, check by check.\<close>

definition PolicyEvaluation_Validate :: "PolicyEvaluation \<Rightarrow> error option" where
  "PolicyEvaluation_Validate pe =
     (if \<not> validStringID (pe_RunID pe) then
        Some (Errorf (''invalid run ID: '' @ pe_RunID pe))
      else if pe_PolicyStageID pe = [] \<and> pe_PolicyCheckID pe = [] then
        Some (Errorf ''either PolicyStageID or PolicyCheckID must be set'')
      else if pe_PolicyStageID pe \<noteq> [] \<and> pe_PolicyCheckID pe \<noteq> [] then
        Some (Errorf ''PolicyStageID and PolicyCheckID are mutually exclusive'')
      else if pe_TotalCount pe < 0 \<or> pe_PassedCount pe < 0 \<or> pe_AdvisoryFailedCount pe < 0
              \<or> pe_MandatoryFailedCount pe < 0 \<or> pe_ErroredCount pe < 0 then
        Some (Errorf ''counts must be non-negative'')
      else
        (let expectedTotal =
               wrap64 (wrap64 (wrap64 (pe_PassedCount pe + pe_AdvisoryFailedCount pe)
                                 + pe_MandatoryFailedCount pe) + pe_ErroredCount pe)
         in if pe_TotalCount pe \<noteq> expectedTotal then
              Some (Errorf (''total count mismatch: expected '' @ fmt_d expectedTotal
                            @ '', got '' @ fmt_d (pe_TotalCount pe)))
            else if pe_RequiresOverride pe \<noteq> (pe_MandatoryFailedCount pe > 0) then
              Some (Errorf ''RequiresOverride mismatch with MandatoryFailedCount'')
            else None))"

text \<open>\<^verbatim>\<open>func (pd *PolicyDetail) Validate() error\<close>.\<close>

definition PolicyDetail_Validate :: "PolicyDetail \<Rightarrow> error option" where
  "PolicyDetail_Validate pd =
     (if pd_PolicyName pd = [] then Some (Errorf ''policy name must not be empty'')
      else if pd_EnforcementLevel pd \<noteq> ''mandatory'' \<and> pd_EnforcementLevel pd \<noteq> ''advisory'' then
        Some (Errorf (''invalid enforcement level: '' @ pd_EnforcementLevel pd))
      else if pd_Status pd \<noteq> ''failed'' \<and> pd_Status pd \<noteq> ''errored'' then
        Some (Errorf (''invalid status: '' @ pd_Status pd))
      else None)"

text \<open>
  \<^verbatim>\<open>PolicyOverride\<close>; \<open>po_Timestamp\<close> stands for the \<^verbatim>\<open>time.Time\<close> field, which no
  function of the sources reads (\<open>0\<close> is its zero value).
\<close>

record PolicyOverride =
  po_RunID :: string
  po_PolicyStageID :: string
  po_PolicyCheckID :: string
  po_Justification :: string
  po_InitialStatus :: string
  po_FinalStatus :: string
  po_OverrideComplete :: bool
  po_Timestamp :: nat

definition validFinalStatuses :: "string list" where
  "validFinalStatuses =
     [''policy_override'', ''post_plan_completed'', ''apply_queued'', ''discarded'', ''errored'']"

text \<open>
  \<^verbatim>\<open>func (po *PolicyOverride) Validate() error\<close> of \<^verbatim>\<open>internal/cloud\<close>. The loop over
  \<^verbatim>\<open>validFinalStatuses\<close> that sets \<^verbatim>\<open>valid\<close> is the membership test.
\<close>

definition PolicyOverride_Validate :: "PolicyOverride \<Rightarrow> error option" where
  "PolicyOverride_Validate po =
     (if \<not> validStringID (po_RunID po) then
        Some (Errorf (''invalid run ID: '' @ po_RunID po))
      else if po_PolicyStageID po = [] \<and> po_PolicyCheckID po = [] then
        Some (Errorf ''either PolicyStageID or PolicyCheckID must be set'')
      else if po_Justification po = [] then
        Some (Errorf ''justification is required'')
      else if po_InitialStatus po \<noteq> ''post_plan_awaiting_decision'' then
        Some (Errorf (''invalid initial status: '' @ po_InitialStatus po
                      @ '', expected post_plan_awaiting_decision''))
      else if po_FinalStatus po \<notin> set validFinalStatuses then
        Some (Errorf (''invalid final status: '' @ po_FinalStatus po))
      else None)"

record OverridePolicyOptions =
  o_RunID :: string
  o_Justification :: string

text \<open>\<^verbatim>\<open>func (o OverridePolicyOptions) Validate() error\<close> of \<^verbatim>\<open>internal/cloud\<close>.\<close>

definition OverridePolicyOptions_Validate :: "OverridePolicyOptions \<Rightarrow> error option" where
  "OverridePolicyOptions_Validate opts =
     (if \<not> validStringID (o_RunID opts) then Some ErrInvalidRunID
      else if o_Justification opts = [] then Some ErrInvalidJustification
      else None)"

section \<open>The raw results of the two API formats\<close>

text \<open>
  The types of the go-tfe SDK, with the fields the sources read. A count of the modern
  format is a Go \<^verbatim>\<open>int\<close> that the API delivers; an outcome of the legacy format carries
  its textual outcome, its enforcement level and the policy's name. The mapping functions
  take pointers; the model covers the calls whose pointers are not \<^verbatim>\<open>nil\<close>.
\<close>

record PolicyResultCount =
  rc_Passed :: int
  rc_AdvisoryFailed :: int
  rc_MandatoryFailed :: int
  rc_Errored :: int

record PolicySetOutcome =
  so_PolicySetName :: string
  so_PolicySetDescription :: string
  so_Outcomes :: PolicyResultCount

record tfe_PolicyEvaluation =
  ev_Status :: string
  ev_ResultCount :: PolicyResultCount
  ev_PolicySetOutcomes :: "PolicySetOutcome list"

record TaskStage =
  ts_ID :: string
  ts_Status :: string

record PolicyCheckOutcome =
  co_Outcome :: string
  co_EnforcementLevel :: string
  co_PolicyName :: string

record PolicyCheck =
  pc_ID :: string
  pc_Status :: string
  pc_PolicySetOutcomes :: "PolicyCheckOutcome list"

record Run =
  run_ID :: string
  run_Status :: string
  run_TaskStage :: "TaskStage option"
  run_PolicyCheck :: "PolicyCheck option"

section \<open>The normalizer\<close>

subsection \<open>Modern format: \<^verbatim>\<open>mapFromTaskStage\<close>\<close>

text \<open>
  The body of the loop over \<^verbatim>\<open>policyEval.PolicySetOutcomes\<close>: a policy set with a
  mandatory failure appends one detail, named after the set.
\<close>

definition appendFailedSet :: "PolicyEvaluation \<Rightarrow> PolicySetOutcome \<Rightarrow> PolicyEvaluation" where
  "appendFailedSet result outcome =
     (if rc_MandatoryFailed (so_Outcomes outcome) > 0 then
        result\<lparr>pe_FailedPolicies := pe_FailedPolicies result @
          [\<lparr>pd_PolicyName = so_PolicySetName outcome, pd_EnforcementLevel = ''mandatory'',
            pd_Status = ''failed'', pd_Description = so_PolicySetDescription outcome\<rparr>]\<rparr>
      else result)"

fun failedSetsLoop :: "PolicyEvaluation \<Rightarrow> PolicySetOutcome list \<Rightarrow> PolicyEvaluation" where
  "failedSetsLoop result [] = result"
| "failedSetsLoop result (outcome # rest) = failedSetsLoop (appendFailedSet result outcome) rest"

definition mapFromTaskStage :: "TaskStage \<Rightarrow> tfe_PolicyEvaluation \<Rightarrow> PolicyEvaluation" where
  "mapFromTaskStage taskStage policyEval =
     (let result = PolicyEvaluation_zero
            \<lparr>pe_PolicyStageID := ts_ID taskStage,
             pe_Status := ev_Status policyEval,
             pe_PassedCount := rc_Passed (ev_ResultCount policyEval),
             pe_AdvisoryFailedCount := rc_AdvisoryFailed (ev_ResultCount policyEval),
             pe_MandatoryFailedCount := rc_MandatoryFailed (ev_ResultCount policyEval),
             pe_ErroredCount := rc_Errored (ev_ResultCount policyEval),
             pe_RequiresOverride := rc_MandatoryFailed (ev_ResultCount policyEval) > 0\<rparr>;
          result = result
            \<lparr>pe_TotalCount :=
               wrap64 (wrap64 (wrap64 (pe_PassedCount result + pe_AdvisoryFailedCount result)
                                 + pe_MandatoryFailedCount result) + pe_ErroredCount result)\<rparr>
      in failedSetsLoop result (ev_PolicySetOutcomes policyEval))"

subsection \<open>Legacy format: \<^verbatim>\<open>mapFromPolicyCheck\<close> and \<^verbatim>\<open>getPolicyFromPolicyCheck\<close>\<close>

text \<open>
  The \<^verbatim>\<open>switch outcome.Outcome\<close> of the loop: three cases, no \<^verbatim>\<open>default\<close>, so any
  other text leaves the result as it is.
\<close>

definition countOutcome :: "PolicyEvaluation \<Rightarrow> PolicyCheckOutcome \<Rightarrow> PolicyEvaluation" where
  "countOutcome result outcome =
     (if co_Outcome outcome = ''passed'' then
        result\<lparr>pe_PassedCount := wrap64 (pe_PassedCount result + 1)\<rparr>
      else if co_Outcome outcome = ''failed'' then
        (if co_EnforcementLevel outcome = ''mandatory'' then
           result\<lparr>pe_MandatoryFailedCount := wrap64 (pe_MandatoryFailedCount result + 1),
                  pe_FailedPolicies := pe_FailedPolicies result @
                    [\<lparr>pd_PolicyName = co_PolicyName outcome, pd_EnforcementLevel = ''mandatory'',
                      pd_Status = ''failed'', pd_Description = []\<rparr>]\<rparr>
         else result\<lparr>pe_AdvisoryFailedCount := wrap64 (pe_AdvisoryFailedCount result + 1)\<rparr>)
      else if co_Outcome outcome = ''errored'' then
        result\<lparr>pe_ErroredCount := wrap64 (pe_ErroredCount result + 1)\<rparr>
      else result)"

fun outcomesLoop :: "PolicyEvaluation \<Rightarrow> PolicyCheckOutcome list \<Rightarrow> PolicyEvaluation" where
  "outcomesLoop result [] = result"
| "outcomesLoop result (outcome # rest) = outcomesLoop (countOutcome result outcome) rest"

text \<open>The two statements after the loop, the same in both legacy functions.\<close>

definition finishCounts :: "PolicyEvaluation \<Rightarrow> PolicyEvaluation" where
  "finishCounts result =
     (let result = result
            \<lparr>pe_TotalCount :=
               wrap64 (wrap64 (wrap64 (pe_PassedCount result + pe_AdvisoryFailedCount result)
                                 + pe_MandatoryFailedCount result) + pe_ErroredCount result)\<rparr>
      in result\<lparr>pe_RequiresOverride := pe_MandatoryFailedCount result > 0\<rparr>)"

definition mapFromPolicyCheck :: "PolicyCheck \<Rightarrow> PolicyEvaluation" where
  "mapFromPolicyCheck policyCheck =
     (let result = PolicyEvaluation_zero
            \<lparr>pe_PolicyCheckID := pc_ID policyCheck, pe_Status := pc_Status policyCheck\<rparr>
      in finishCounts (outcomesLoop result (pc_PolicySetOutcomes policyCheck)))"

definition getPolicyFromPolicyCheck :: "Run \<Rightarrow> PolicyCheck \<Rightarrow> PolicyEvaluation" where
  "getPolicyFromPolicyCheck run check =
     (let result = PolicyEvaluation_zero
            \<lparr>pe_RunID := run_ID run, pe_PolicyCheckID := pc_ID check,
             pe_Status := pc_Status check\<rparr>
      in finishCounts (outcomesLoop result (pc_PolicySetOutcomes check)))"

section \<open>Classes of legacy outcomes\<close>

text \<open>
  The classes the legacy loop tells apart, as predicates on one outcome, and the detail
  it appends for a mandatory failure. They state what is counted; the loop above is the
  code that counts.
\<close>

definition isPassed :: "PolicyCheckOutcome \<Rightarrow> bool" where
  "isPassed outcome = (co_Outcome outcome = ''passed'')"

definition isMandatoryFailed :: "PolicyCheckOutcome \<Rightarrow> bool" where
  "isMandatoryFailed outcome =
     (co_Outcome outcome = ''failed'' \<and> co_EnforcementLevel outcome = ''mandatory'')"

definition isAdvisoryFailed :: "PolicyCheckOutcome \<Rightarrow> bool" where
  "isAdvisoryFailed outcome =
     (co_Outcome outcome = ''failed'' \<and> co_EnforcementLevel outcome \<noteq> ''mandatory'')"

definition isErrored :: "PolicyCheckOutcome \<Rightarrow> bool" where
  "isErrored outcome = (co_Outcome outcome = ''errored'')"

definition isRecognized :: "PolicyCheckOutcome \<Rightarrow> bool" where
  "isRecognized outcome =
     (co_Outcome outcome = ''passed'' \<or> co_Outcome outcome = ''failed''
      \<or> co_Outcome outcome = ''errored'')"

definition failedDetail :: "PolicyCheckOutcome \<Rightarrow> PolicyDetail" where
  "failedDetail outcome =
     \<lparr>pd_PolicyName = co_PolicyName outcome, pd_EnforcementLevel = ''mandatory'',
      pd_Status = ''failed'', pd_Description = []\<rparr>"

definition hasMandatoryFailure :: "PolicySetOutcome \<Rightarrow> bool" where
  "hasMandatoryFailure outcome = (rc_MandatoryFailed (so_Outcomes outcome) > 0)"

definition failedSetDetail :: "PolicySetOutcome \<Rightarrow> PolicyDetail" where
  "failedSetDetail outcome =
     \<lparr>pd_PolicyName = so_PolicySetName outcome, pd_EnforcementLevel = ''mandatory'',
      pd_Status = ''failed'', pd_Description = so_PolicySetDescription outcome\<rparr>"

section \<open>The override orchestrator\<close>

text \<open>
  The run statuses of the go-tfe SDK, with the texts \<^verbatim>\<open>data-model.md\<close> lists for them.
\<close>

definition RunPostPlanAwaitingDecision :: string where
  "RunPostPlanAwaitingDecision = ''post_plan_awaiting_decision''"

definition RunPolicyOverride :: string where
  "RunPolicyOverride = ''policy_override''"

definition RunPostPlanCompleted :: string where
  "RunPostPlanCompleted = ''post_plan_completed''"

definition RunDiscarded :: string where
  "RunDiscarded = ''discarded''"

definition RunCanceled :: string where
  "RunCanceled = ''canceled''"

definition RunForceCanceled :: string where
  "RunForceCanceled = ''force_canceled''"

definition RunErrored :: string where
  "RunErrored = ''errored''"

text \<open>
  The remote service is the only boundary with effects. A \<open>tfe_Client\<close> gives the answer
  of each of its operations; the calls a function makes and the lines it logs are
  recorded, in order, in the \<open>effects\<close> it threads through.
\<close>

datatype call =
    RunsRead string
  | TaskStagesOverride string string
  | PolicyChecksOverride string
  | CommentsCreate string string

fun mutating :: "call \<Rightarrow> bool" where
  "mutating (RunsRead runID) = False"
| "mutating (TaskStagesOverride stageID comment) = True"
| "mutating (PolicyChecksOverride checkID) = True"
| "mutating (CommentsCreate runID body) = True"

record tfe_Client =
  Runs_Read :: "string \<Rightarrow> error + Run"
  TaskStages_Override :: "string \<Rightarrow> string \<Rightarrow> error + TaskStage"
  PolicyChecks_Override :: "string \<Rightarrow> error option"
  Comments_Create :: "string \<Rightarrow> string \<Rightarrow> error option"

record effects =
  calls :: "call list"
  logged :: "string list"

definition called :: "call \<Rightarrow> effects \<Rightarrow> effects" where
  "called c w = w\<lparr>calls := calls w @ [c]\<rparr>"

definition log_Printf :: "string \<Rightarrow> effects \<Rightarrow> effects" where
  "log_Printf line w = w\<lparr>logged := logged w @ [line]\<rparr>"

text \<open>\<^verbatim>\<open>validateOverrideEligibility\<close> of \<^verbatim>\<open>research.md\<close>.\<close>

definition validateOverrideEligibility ::
  "tfe_Client \<Rightarrow> string \<Rightarrow> effects \<Rightarrow> (error + Run) \<times> effects" where
  "validateOverrideEligibility tfe runID w =
     (let w = called (RunsRead runID) w in
      case Runs_Read tfe runID of
        Inl err \<Rightarrow> (Inl (Errorf (''error reading run: '' @ Error err)), w)
      | Inr run \<Rightarrow>
          if run_Status run \<noteq> RunPostPlanAwaitingDecision then
            (Inl (Errorf (''run status is '' @ run_Status run
                          @ '', expected post_plan_awaiting_decision'')), w)
          else (Inr run, w))"

text \<open>
  The comment both override helpers add, and what they do when it fails: one line in the
  log, nothing else.
\<close>

definition addComment :: "tfe_Client \<Rightarrow> Run \<Rightarrow> string \<Rightarrow> effects \<Rightarrow> effects" where
  "addComment tfe run justification w =
     (let body = ''Policy Override: '' @ justification;
          w = called (CommentsCreate (run_ID run) body) w
      in case Comments_Create tfe (run_ID run) body of
           Some err \<Rightarrow> log_Printf (''[WARN] failed to add comment to run: '' @ Error err) w
         | None \<Rightarrow> w)"

text \<open>
  \<^verbatim>\<open>overrideViaTaskStage\<close>. \<open>TaskStageOverridden\<close> is a status constant of the SDK whose
  text the sources do not give; it is a parameter. The fields the literal leaves out
  keep their zero values.
\<close>

definition overrideViaTaskStage ::
  "string \<Rightarrow> tfe_Client \<Rightarrow> Run \<Rightarrow> string \<Rightarrow> effects \<Rightarrow> (error + PolicyOverride) \<times> effects" where
  "overrideViaTaskStage TaskStageOverridden tfe run justification w =
     (case run_TaskStage run of
        None \<Rightarrow> (Inl NilPointerPanic, w)
      | Some stage \<Rightarrow>
          (let w = called (TaskStagesOverride (ts_ID stage) justification) w in
           case TaskStages_Override tfe (ts_ID stage) justification of
             Inl err \<Rightarrow> (Inl (Errorf (''error overriding task stage: '' @ Error err)), w)
           | Inr taskStage \<Rightarrow>
               (let w = addComment tfe run justification w
                in (Inr \<lparr>po_RunID = run_ID run, po_PolicyStageID = ts_ID taskStage,
                         po_PolicyCheckID = [], po_Justification = justification,
                         po_InitialStatus = run_Status run, po_FinalStatus = [],
                         po_OverrideComplete = (ts_Status taskStage = TaskStageOverridden),
                         po_Timestamp = 0\<rparr>, w))))"

text \<open>\<^verbatim>\<open>overrideViaPolicyCheck\<close>.\<close>

definition overrideViaPolicyCheck ::
  "tfe_Client \<Rightarrow> Run \<Rightarrow> string \<Rightarrow> effects \<Rightarrow> (error + PolicyOverride) \<times> effects" where
  "overrideViaPolicyCheck tfe run justification w =
     (case run_PolicyCheck run of
        None \<Rightarrow> (Inl NilPointerPanic, w)
      | Some check \<Rightarrow>
          (let w = called (PolicyChecksOverride (pc_ID check)) w in
           case PolicyChecks_Override tfe (pc_ID check) of
             Some err \<Rightarrow> (Inl (Errorf (''error overriding policy check: '' @ Error err)), w)
           | None \<Rightarrow>
               (let w = addComment tfe run justification w
                in (Inr \<lparr>po_RunID = run_ID run, po_PolicyStageID = [],
                         po_PolicyCheckID = pc_ID check, po_Justification = justification,
                         po_InitialStatus = run_Status run, po_FinalStatus = [],
                         po_OverrideComplete = True, po_Timestamp = 0\<rparr>, w))))"

text \<open>\<^verbatim>\<open>OverridePolicy\<close> of \<^verbatim>\<open>research.md\<close>.\<close>

definition hasTaskStage :: "Run \<Rightarrow> bool" where
  "hasTaskStage run = (case run_TaskStage run of None \<Rightarrow> False | Some stage \<Rightarrow> ts_ID stage \<noteq> [])"

definition hasPolicyCheck :: "Run \<Rightarrow> bool" where
  "hasPolicyCheck run = (case run_PolicyCheck run of None \<Rightarrow> False | Some check \<Rightarrow> pc_ID check \<noteq> [])"

definition OverridePolicy ::
  "string \<Rightarrow> tfe_Client \<Rightarrow> OverridePolicyOptions \<Rightarrow> effects
     \<Rightarrow> (error + PolicyOverride) \<times> effects" where
  "OverridePolicy TaskStageOverridden tfe options w =
     (case validateOverrideEligibility tfe (o_RunID options) w of
        (Inl err, w) \<Rightarrow> (Inl err, w)
      | (Inr run, w) \<Rightarrow>
          if hasTaskStage run then
            overrideViaTaskStage TaskStageOverridden tfe run (o_Justification options) w
          else if hasPolicyCheck run then
            overrideViaPolicyCheck tfe run (o_Justification options) w
          else
            (Inl (Errorf (''no policy check or task stage found for run '' @ run_ID run)), w))"

section \<open>Waiting for the policy decision\<close>

text \<open>
  Time is a clock reading in nanoseconds, as \<^verbatim>\<open>time.Duration\<close> counts; the durations
  here are never negative, so they are natural numbers.
\<close>

definition Second :: nat where
  "Second = 1000000000"

definition Minute :: nat where
  "Minute = 60 * Second"

definition PolicyWaitMaxDuration :: nat where
  "PolicyWaitMaxDuration = 30 * Minute"

definition PolicyWaitInitialBackoff :: nat where
  "PolicyWaitInitialBackoff = 10 * Second"

definition PolicyWaitMaxBackoff :: nat where
  "PolicyWaitMaxBackoff = 30 * Second"

subsection \<open>The backoff schedule\<close>

text \<open>
  Modelled from the spec: the retry library (\<^verbatim>\<open>retry.NewFibonacci\<close>,
  \<^verbatim>\<open>retry.WithCappedDuration\<close>, \<^verbatim>\<open>retry.WithMaxDuration\<close>, \<^verbatim>\<open>retry.Do\<close>) is not part of
  the sources; \<^verbatim>\<open>policyWaitBackoffStrategy\<close> and \<^verbatim>\<open>WaitForPolicyDecision\<close>, which call it,
  are. A backoff answers \<^verbatim>\<open>Next()\<close> with a duration and a stop flag; here it is a function
  of the clock reading and of its own state, returning the next state as well.
  The spec's words: intervals are Fibonacci-shaped from a short floor, each is capped at
  an upper bound per step, and the whole wait is bounded by a maximum total duration: an
  interval is cut to what is left of it, and once nothing is left the backoff stops.
\<close>

type_synonym 's Backoff = "nat \<Rightarrow> 's \<Rightarrow> (nat \<times> bool) \<times> 's"

definition NewFibonacci :: "nat \<Rightarrow> nat \<times> nat" where
  "NewFibonacci base = (0, base)"

definition Fibonacci_Next :: "(nat \<times> nat) Backoff" where
  "Fibonacci_Next t s = (case s of (s0, s1) \<Rightarrow> ((s0 + s1, False), (s1, s0 + s1)))"

definition WithCappedDuration :: "nat \<Rightarrow> 's Backoff \<Rightarrow> 's Backoff" where
  "WithCappedDuration cap next t s =
     (case next t s of
        ((val, stop), s') \<Rightarrow>
          if stop then ((0, True), s')
          else ((if val = 0 \<or> val > cap then cap else val, False), s'))"

definition WithMaxDuration :: "nat \<Rightarrow> nat \<Rightarrow> 's Backoff \<Rightarrow> 's Backoff" where
  "WithMaxDuration timeout start next t s =
     (if start + timeout \<le> t then ((0, True), s)
      else (case next t s of
              ((val, stop), s') \<Rightarrow>
                if stop then ((0, True), s')
                else (let diff = start + timeout - t
                      in ((if val = 0 \<or> val > diff then diff else val, False), s'))))"

text \<open>
  \<^verbatim>\<open>policyWaitBackoffStrategy\<close> of \<^verbatim>\<open>research.md\<close>, built at clock reading \<open>start\<close>: the
  three calls in the source's order, with the source's constants.
\<close>

definition policyWaitBackoffStrategy :: "nat \<Rightarrow> (nat \<times> nat) Backoff" where
  "policyWaitBackoffStrategy start =
     WithMaxDuration PolicyWaitMaxDuration start
       (WithCappedDuration PolicyWaitMaxBackoff Fibonacci_Next)"

text \<open>The \<open>n\<close>-th interval of the Fibonacci backoff (counted from 0), before any cap.\<close>

fun fibonacciInterval :: "nat \<times> nat \<Rightarrow> nat \<Rightarrow> nat" where
  "fibonacciInterval s 0 = fst (fst (Fibonacci_Next 0 s))"
| "fibonacciInterval s (Suc n) = fibonacciInterval (snd (Fibonacci_Next 0 s)) n"

text \<open>The state of the Fibonacci backoff after \<open>n\<close> calls of \<^verbatim>\<open>Next()\<close>.\<close>

fun fibonacciState :: "nat \<times> nat \<Rightarrow> nat \<Rightarrow> nat \<times> nat" where
  "fibonacciState s 0 = s"
| "fibonacciState s (Suc n) = fibonacciState (snd (Fibonacci_Next 0 s)) n"

subsection \<open>The probe of \<^verbatim>\<open>WaitForPolicyDecision\<close>\<close>

text \<open>
  What the function passed to \<^verbatim>\<open>retry.Do\<close> returns for one answer of \<^verbatim>\<open>Runs.Read\<close>:
  \<^verbatim>\<open>nil\<close> with the run kept as \<^verbatim>\<open>finalRun\<close>, a plain error, or an error wrapped by
  \<^verbatim>\<open>retry.RetryableError\<close>. The lines it logs are left out.
\<close>

datatype probe_result =
    Succeeded Run
  | Stopped error
  | Retryable error

definition probe :: "error + Run \<Rightarrow> probe_result" where
  "probe answer =
     (case answer of
        Inl err \<Rightarrow> Stopped err
      | Inr run \<Rightarrow>
          if run_Status run = RunPolicyOverride \<or> run_Status run = RunPostPlanCompleted then
            Succeeded run
          else if run_Status run = RunDiscarded then
            Stopped (Errorf ''run was discarded'')
          else if run_Status run = RunCanceled \<or> run_Status run = RunForceCanceled then
            Stopped (Errorf ''run was canceled'')
          else if run_Status run = RunErrored then
            Stopped (Errorf ''run entered error state'')
          else if run_Status run = RunPostPlanAwaitingDecision then
            Retryable (Errorf ''still awaiting decision'')
          else
            Retryable (Errorf (''unexpected status: '' @ run_Status run)))"

subsection \<open>The wait engine\<close>

text \<open>
  A context is done from some clock reading on, or never; its error tells a cancellation
  from a deadline. \<^verbatim>\<open>context.WithTimeout\<close> at clock reading \<open>t\<close> adds a deadline.
\<close>

record Context =
  ctx_doneAt :: "nat option"
  ctx_canceled :: bool

definition ctx_Done :: "Context \<Rightarrow> nat \<Rightarrow> bool" where
  "ctx_Done ctx t = (case ctx_doneAt ctx of None \<Rightarrow> False | Some d \<Rightarrow> d \<le> t)"

definition ctx_Err :: "Context \<Rightarrow> error" where
  "ctx_Err ctx = (if ctx_canceled ctx then ContextCanceled else ContextDeadlineExceeded)"

definition WithTimeout :: "Context \<Rightarrow> nat \<Rightarrow> nat \<Rightarrow> Context" where
  "WithTimeout ctx t timeout =
     (case ctx_doneAt ctx of
        None \<Rightarrow> \<lparr>ctx_doneAt = Some (t + timeout), ctx_canceled = False\<rparr>
      | Some d \<Rightarrow> if d \<le> t + timeout then ctx
                  else \<lparr>ctx_doneAt = Some (t + timeout), ctx_canceled = False\<rparr>)"

text \<open>
  Modelled from the spec: the state machine of the wait engine (\<^verbatim>\<open>retry.Do\<close>, not part of
  the sources). A wait is \<open>Polling\<close> or has ended in one of the terminal states \<open>Done\<close>,
  \<open>Failed\<close> and \<open>TimedOut\<close>. The state of a polling wait is the clock reading, the number
  of probes made and the state of the backoff. The \<open>k\<close>-th probe is the \<open>k\<close>-th answer of
  \<^verbatim>\<open>Runs.Read\<close> with the time it takes, both given by the environment \<open>reads\<close>.
  One step: if the context is done the wait times out; else the probe runs; on success
  the wait is done, on a plain error it has failed; on a retryable error the backoff is
  asked: if it stops, or the context is done before the interval has passed, the wait
  times out, else the engine sleeps for the interval and polls again.
\<close>

record polling =
  now :: nat
  probes :: nat
  backoff :: "nat \<times> nat"

datatype outcome =
    Done Run
  | Failed error
  | TimedOut error

datatype wait_state =
    Polling polling
  | Ended outcome polling

definition retry_step ::
  "Context \<Rightarrow> (nat \<times> nat) Backoff \<Rightarrow> (nat \<Rightarrow> nat \<times> (error + Run)) \<Rightarrow> polling \<Rightarrow> wait_state" where
  "retry_step ctx b reads p =
     (if ctx_Done ctx (now p) then Ended (TimedOut (ctx_Err ctx)) p
      else (case reads (probes p) of
              (latency, answer) \<Rightarrow>
                (let p = p\<lparr>now := now p + latency, probes := probes p + 1\<rparr> in
                 case probe answer of
                   Succeeded run \<Rightarrow> Ended (Done run) p
                 | Stopped err \<Rightarrow> Ended (Failed err) p
                 | Retryable err \<Rightarrow>
                     (case b (now p) (backoff p) of
                        ((next, stop), s') \<Rightarrow>
                          if stop then Ended (TimedOut err) p
                          else if ctx_Done ctx (now p) then Ended (TimedOut (ctx_Err ctx)) p
                          else if ctx_Done ctx (now p + next) then
                            Ended (TimedOut (ctx_Err ctx))
                              (p\<lparr>now := (case ctx_doneAt ctx of None \<Rightarrow> now p | Some d \<Rightarrow> d)\<rparr>)
                          else Polling (p\<lparr>now := now p + next, backoff := s'\<rparr>)))))"

text \<open>
  \<^verbatim>\<open>retry.Do(ctx, policyWaitBackoffStrategy(), probe)\<close>, the strategy built at clock reading
  \<open>start\<close>: steps until the wait has ended.
\<close>

function retry_Do ::
  "Context \<Rightarrow> nat \<Rightarrow> (nat \<Rightarrow> nat \<times> (error + Run)) \<Rightarrow> polling \<Rightarrow> outcome \<times> polling" where
  "retry_Do ctx start reads p =
     (case retry_step ctx (policyWaitBackoffStrategy start) reads p of
        Polling p' \<Rightarrow> retry_Do ctx start reads p'
      | Ended out p' \<Rightarrow> (out, p'))"
  by pat_completeness auto

text \<open>
  \<^verbatim>\<open>WaitForPolicyDecision\<close> of \<^verbatim>\<open>research.md\<close>, called at clock reading \<open>t\<close>. A positive
  \<^verbatim>\<open>options.Timeout\<close> puts a deadline on the context. The result is paired with the final
  state of the engine, which tells when the wait ended and after how many probes.
\<close>

record WaitForPolicyOptions =
  wo_RunID :: string
  wo_Timeout :: nat

definition WaitForPolicyDecision ::
  "Context \<Rightarrow> (nat \<Rightarrow> nat \<times> (error + Run)) \<Rightarrow> WaitForPolicyOptions \<Rightarrow> nat
     \<Rightarrow> (error + PolicyOverride) \<times> polling" where
  "WaitForPolicyDecision ctx reads options t =
     (let ctx = (if wo_Timeout options > 0 then WithTimeout ctx t (wo_Timeout options) else ctx)
      in case retry_Do ctx t reads
                \<lparr>now = t, probes = 0, backoff = NewFibonacci PolicyWaitInitialBackoff\<rparr> of
           (Done finalRun, p) \<Rightarrow>
             (Inr \<lparr>po_RunID = run_ID finalRun, po_PolicyStageID = [], po_PolicyCheckID = [],
                   po_Justification = [], po_InitialStatus = RunPostPlanAwaitingDecision,
                   po_FinalStatus = run_Status finalRun, po_OverrideComplete = True,
                   po_Timestamp = 0\<rparr>, p)
         | (Failed err, p) \<Rightarrow> (Inl err, p)
         | (TimedOut err, p) \<Rightarrow> (Inl err, p))"

text \<open>
  The schedule of the probes, in the spec's words: the wait starts with a probe; after a
  probe that is retried the engine sleeps for the next Fibonacci interval, capped at the
  upper bound per step. So, as long as every probe is retried and neither the deadline
  nor the maximum duration is reached, probe \<open>k\<close> (counted from 0) starts at the clock
  reading \<open>probeTime reads t k\<close>: the time of the call plus, for each earlier probe, the
  time the probe took and the capped interval after it.
\<close>

fun probeTime :: "(nat \<Rightarrow> nat \<times> (error + Run)) \<Rightarrow> nat \<Rightarrow> nat \<Rightarrow> nat" where
  "probeTime reads t 0 = t"
| "probeTime reads t (Suc k) =
     probeTime reads t k + fst (reads k)
       + min (fibonacciInterval (NewFibonacci PolicyWaitInitialBackoff) k) PolicyWaitMaxBackoff"

section \<open>Comparing the two formats\<close>

text \<open>
  Semantic equivalence of a modern and a legacy raw input, in the words of the spec: the
  same per-outcome counts, and the same failing policy names and enforcement levels. The
  spec knows two enforcement levels, mandatory and advisory. The modern input carries
  them as separate counts; the legacy input carries a level text with each outcome. The
  text \<^verbatim>\<open>mandatory\<close> names the mandatory level; which other level texts do so as well is
  left open, a parameter \<open>alsoMandatory\<close> of the relation. The relation does not look at
  the status texts of the two inputs.
\<close>

datatype enforcement = Mandatory | Advisory







section \<open>Concrete inputs\<close>

text \<open>The legacy check of run \<^verbatim>\<open>run-xyz789\<close>: one outcome of each class.\<close>

definition legacy_check_xyz789 :: PolicyCheck where
  "legacy_check_xyz789 =
     \<lparr>pc_ID = ''polchk-xyz789'', pc_Status = ''hard_failed'',
      pc_PolicySetOutcomes =
        [\<lparr>co_Outcome = ''passed'', co_EnforcementLevel = ''mandatory'', co_PolicyName = ''tag-policy''\<rparr>,
         \<lparr>co_Outcome = ''failed'', co_EnforcementLevel = ''mandatory'', co_PolicyName = ''aws-cost-limit''\<rparr>,
         \<lparr>co_Outcome = ''failed'', co_EnforcementLevel = ''advisory'', co_PolicyName = ''naming''\<rparr>,
         \<lparr>co_Outcome = ''errored'', co_EnforcementLevel = ''mandatory'', co_PolicyName = ''network''\<rparr>]\<rparr>"

definition run_xyz789 :: Run where
  "run_xyz789 = \<lparr>run_ID = ''run-xyz789'', run_Status = ''post_plan_awaiting_decision'',
     run_TaskStage = None, run_PolicyCheck = Some legacy_check_xyz789\<rparr>"

text \<open>
  A modern stage with the counts 5, 1, 2, 0 of run \<^verbatim>\<open>run-abc123\<close>; a modern and a legacy
  input with one mandatory failure of the same name; a modern evaluation with a negative
  count; a legacy check with an outcome that is neither passed, failed nor errored.
\<close>

definition stage_abc123 :: TaskStage where
  "stage_abc123 = \<lparr>ts_ID = ''ts-xyz789'', ts_Status = ''awaiting_override''\<rparr>"





definition eval_negative_count :: tfe_PolicyEvaluation where
  "eval_negative_count =
     \<lparr>ev_Status = ''passed'',
      ev_ResultCount = \<lparr>rc_Passed = - 1, rc_AdvisoryFailed = 0, rc_MandatoryFailed = 0, rc_Errored = 0\<rparr>,
      ev_PolicySetOutcomes = []\<rparr>"

definition check_with_unknown :: PolicyCheck where
  "check_with_unknown =
     \<lparr>pc_ID = ''polchk-abc123'', pc_Status = ''passed'',
      pc_PolicySetOutcomes =
        [\<lparr>co_Outcome = ''passed'', co_EnforcementLevel = ''mandatory'', co_PolicyName = ''tag-policy''\<rparr>,
         \<lparr>co_Outcome = ''pending'', co_EnforcementLevel = ''advisory'', co_PolicyName = ''naming''\<rparr>]\<rparr>"

definition eval_abc123 :: tfe_PolicyEvaluation where
  "eval_abc123 =
     \<lparr>ev_Status = ''failed'',
      ev_ResultCount = \<lparr>rc_Passed = 5, rc_AdvisoryFailed = 1, rc_MandatoryFailed = 2, rc_Errored = 0\<rparr>,
      ev_PolicySetOutcomes =
        [\<lparr>so_PolicySetName = ''aws-cost-limit'',
          so_PolicySetDescription = ''Terraform run exceeds the daily cost threshold'',
          so_Outcomes = \<lparr>rc_Passed = 2, rc_AdvisoryFailed = 0, rc_MandatoryFailed = 1,
                         rc_Errored = 0\<rparr>\<rparr>,
         \<lparr>so_PolicySetName = ''tagging'',
          so_PolicySetDescription = ''Resources carry the required tags'',
          so_Outcomes = \<lparr>rc_Passed = 3, rc_AdvisoryFailed = 1, rc_MandatoryFailed = 0,
                         rc_Errored = 0\<rparr>\<rparr>,
         \<lparr>so_PolicySetName = ''security-group-ingress'',
          so_PolicySetDescription = ''Security group allows unrestricted ingress'',
          so_Outcomes = \<lparr>rc_Passed = 0, rc_AdvisoryFailed = 0, rc_MandatoryFailed = 1,
                         rc_Errored = 0\<rparr>\<rparr>]\<rparr>"

text \<open>
  An override that carries both identifiers; options with a justification of two
  characters and with a long one; a service whose run awaits the decision on a stage,
  the same service with a comment operation that fails, and with a run already applied.
\<close>

definition override_both_ids :: PolicyOverride where
  "override_both_ids =
     \<lparr>po_RunID = ''run-abc123'', po_PolicyStageID = ''ts-xyz789'',
      po_PolicyCheckID = ''polchk-abc123'',
      po_Justification = ''Emergency hotfix approved by CTO'',
      po_InitialStatus = ''post_plan_awaiting_decision'', po_FinalStatus = ''policy_override'',
      po_OverrideComplete = True, po_Timestamp = 0\<rparr>"

definition options_hi :: OverridePolicyOptions where
  "options_hi = \<lparr>o_RunID = ''run-abc123'', o_Justification = ''hi''\<rparr>"

definition run_awaiting :: "string \<Rightarrow> Run" where
  "run_awaiting runID =
     \<lparr>run_ID = runID, run_Status = ''post_plan_awaiting_decision'',
      run_TaskStage = Some stage_abc123, run_PolicyCheck = None\<rparr>"

definition client_awaiting :: tfe_Client where
  "client_awaiting =
     \<lparr>Runs_Read = (\<lambda>runID. Inr (run_awaiting runID)),
      TaskStages_Override = (\<lambda>stageID comment. Inr \<lparr>ts_ID = stageID, ts_Status = ''running''\<rparr>),
      PolicyChecks_Override = (\<lambda>checkID. None),
      Comments_Create = (\<lambda>runID body. None)\<rparr>"

definition client_comment_fails :: tfe_Client where
  "client_comment_fails =
     client_awaiting\<lparr>Comments_Create := (\<lambda>runID body. Some (Errorf ''internal server error''))\<rparr>"

definition client_applied :: tfe_Client where
  "client_applied =
     client_awaiting\<lparr>Runs_Read := (\<lambda>runID. Inr ((run_awaiting runID)\<lparr>run_Status := ''applied''\<rparr>))\<rparr>"

definition no_effects :: effects where
  "no_effects = \<lparr>calls = [], logged = []\<rparr>"

definition options_hotfix :: OverridePolicyOptions where
  "options_hotfix =
     \<lparr>o_RunID = ''run-abc123'', o_Justification = ''Emergency hotfix approved by CTO''\<rparr>"

text \<open>
  A run that was discarded; an environment whose first read shows the run awaiting the
  decision and whose later reads show it discarded; a context that is never done;
  options without a timeout and with a timeout of five seconds.
\<close>

definition run_discarded :: Run where
  "run_discarded =
     \<lparr>run_ID = ''run-abc123'', run_Status = ''discarded'',
      run_TaskStage = Some stage_abc123, run_PolicyCheck = None\<rparr>"

definition reads_then_discarded :: "nat \<Rightarrow> nat \<times> (error + Run)" where
  "reads_then_discarded k =
     (if k = 0 then (2 * Second, Inr (run_awaiting ''run-abc123''))
      else (Second, Inr run_discarded))"

definition ctx_Background :: Context where
  "ctx_Background = \<lparr>ctx_doneAt = None, ctx_canceled = False\<rparr>"

definition options_wait :: WaitForPolicyOptions where
  "options_wait = \<lparr>wo_RunID = ''run-abc123'', wo_Timeout = 0\<rparr>"

definition options_wait_5s :: WaitForPolicyOptions where
  "options_wait_5s = \<lparr>wo_RunID = ''run-abc123'', wo_Timeout = 5 * Second\<rparr>"

section \<open>Termination of the wait\<close>

lemma strategy_next:
  "policyWaitBackoffStrategy start t s = ((nxt, False), s') \<Longrightarrow>
   0 < nxt \<and> nxt \<le> PolicyWaitMaxBackoff \<and> t + nxt \<le> start + PolicyWaitMaxDuration"
  by (auto simp: policyWaitBackoffStrategy_def WithMaxDuration_def WithCappedDuration_def
        Fibonacci_Next_def PolicyWaitMaxBackoff_def Second_def Let_def
      split: if_splits prod.splits)

lemma retry_step_Polling:
  assumes "retry_step ctx (policyWaitBackoffStrategy start) reads p = Polling p'"
  shows "now p < now p' \<and> now p' \<le> start + PolicyWaitMaxDuration \<and> probes p' = probes p + 1"
proof -
  obtain latency answer where r: "reads (probes p) = (latency, answer)"
    by (cases "reads (probes p)")
  obtain nxt stop s' where
    b: "policyWaitBackoffStrategy start (now p + latency) (backoff p) = ((nxt, stop), s')"
    by (cases "policyWaitBackoffStrategy start (now p + latency) (backoff p)") auto
  from assms r b have ns: "\<not> stop"
    and p': "p' = p\<lparr>now := now p + latency + nxt, probes := probes p + 1, backoff := s'\<rparr>"
    by (auto simp: retry_step_def Let_def split: if_splits probe_result.splits)
  from b ns have "policyWaitBackoffStrategy start (now p + latency) (backoff p) = ((nxt, False), s')"
    by simp
  from strategy_next [OF this] p' show ?thesis by simp
qed

text \<open>
  Every step that keeps polling moves the clock forward and ends no later than the
  maximum duration after the start, so the time left decreases: the wait always ends.
\<close>

termination retry_Do
proof (relation "measure (\<lambda>(ctx, start, reads, p). start + PolicyWaitMaxDuration - now p)")
  show "wf (measure (\<lambda>(ctx, start, reads, p). start + PolicyWaitMaxDuration - now p))"
    by simp
next
  fix ctx start reads p p'
  assume "retry_step ctx (policyWaitBackoffStrategy start) reads p = Polling p'"
  from retry_step_Polling [OF this]
  show "((ctx, start, reads, p'), (ctx, start, reads, p))
        \<in> measure (\<lambda>(ctx, start, reads, p). start + PolicyWaitMaxDuration - now p)"
    by auto
qed

declare retry_Do.simps [simp del]

section \<open>Go integers\<close>

lemma wrap64_id: "int64 x \<Longrightarrow> wrap64 x = x"
  by (simp add: wrap64_def int64_def)

lemma int64_wrap64: "int64 (wrap64 x)"
proof -
  have "0 \<le> (x + 2 ^ 63) mod (2 ^ 64 :: int)" by simp
  moreover have "(x + 2 ^ 63) mod (2 ^ 64 :: int) < 2 ^ 64" by simp
  ultimately show ?thesis by (simp add: wrap64_def int64_def)
qed

lemma wrap64_add_left: "wrap64 (wrap64 a + b) = wrap64 (a + b)"
proof -
  have "(wrap64 a + b + 2 ^ 63) mod 2 ^ 64 = (a + b + 2 ^ 63) mod (2 ^ 64 :: int)"
    unfolding wrap64_def by (simp add: algebra_simps mod_simps)
  then show ?thesis by (simp add: wrap64_def)
qed

lemma wrap64_succ_add: "wrap64 (wrap64 (c + 1) + n) = wrap64 (c + (1 + n))"
  by (simp add: wrap64_add_left add.assoc)

lemma wrap64_nat_le:
  "n \<le> m \<Longrightarrow> int m < 2 ^ 63 \<Longrightarrow> wrap64 (int n) = int n"
  by (rule wrap64_id) (simp add: int64_def)

lemma wrapped_sum_exact:
  assumes "0 \<le> p" "0 \<le> a" "0 \<le> m" "0 \<le> e" "p + a + m + e < 2 ^ 63"
  shows "wrap64 (wrap64 (wrap64 (p + a) + m) + e) = p + a + m + e"
proof -
  have "wrap64 (p + a) = p + a" using assms by (intro wrap64_id) (simp add: int64_def)
  moreover have "wrap64 (p + a + m) = p + a + m"
    using assms by (intro wrap64_id) (simp add: int64_def)
  moreover have "wrap64 (p + a + m + e) = p + a + m + e"
    using assms by (intro wrap64_id) (simp add: int64_def)
  ultimately show ?thesis by simp
qed

section \<open>The legacy loop\<close>

lemma countOutcome_Passed:
  "pe_PassedCount (countOutcome r x) =
     (if isPassed x then wrap64 (pe_PassedCount r + 1) else pe_PassedCount r)"
  by (simp add: countOutcome_def isPassed_def)

lemma countOutcome_Mandatory:
  "pe_MandatoryFailedCount (countOutcome r x) =
     (if isMandatoryFailed x then wrap64 (pe_MandatoryFailedCount r + 1)
      else pe_MandatoryFailedCount r)"
  by (simp add: countOutcome_def isMandatoryFailed_def)

lemma countOutcome_Advisory:
  "pe_AdvisoryFailedCount (countOutcome r x) =
     (if isAdvisoryFailed x then wrap64 (pe_AdvisoryFailedCount r + 1)
      else pe_AdvisoryFailedCount r)"
  by (simp add: countOutcome_def isAdvisoryFailed_def)

lemma countOutcome_Errored:
  "pe_ErroredCount (countOutcome r x) =
     (if isErrored x then wrap64 (pe_ErroredCount r + 1) else pe_ErroredCount r)"
  by (simp add: countOutcome_def isErrored_def)

lemma countOutcome_FailedPolicies:
  "pe_FailedPolicies (countOutcome r x) =
     (if isMandatoryFailed x then pe_FailedPolicies r @ [failedDetail x] else pe_FailedPolicies r)"
  by (simp add: countOutcome_def isMandatoryFailed_def failedDetail_def)

lemma countOutcome_frame:
  "pe_RunID (countOutcome r x) = pe_RunID r"
  "pe_PolicyStageID (countOutcome r x) = pe_PolicyStageID r"
  "pe_PolicyCheckID (countOutcome r x) = pe_PolicyCheckID r"
  "pe_Status (countOutcome r x) = pe_Status r"
  by (simp_all add: countOutcome_def)

lemma countOutcome_unrecognized: "\<not> isRecognized x \<Longrightarrow> countOutcome r x = r"
  by (simp add: countOutcome_def isRecognized_def)

lemma outcomesLoop_Passed:
  "int64 (pe_PassedCount r) \<Longrightarrow>
   pe_PassedCount (outcomesLoop r xs) = wrap64 (pe_PassedCount r + int (length (filter isPassed xs)))"
proof (induction xs arbitrary: r)
  case Nil
  then show ?case by (simp add: wrap64_id)
next
  case (Cons x xs)
  have "int64 (pe_PassedCount (countOutcome r x))"
    using Cons.prems by (simp add: countOutcome_Passed int64_wrap64)
  from Cons.IH [OF this] show ?case
    by (simp add: countOutcome_Passed wrap64_succ_add)
qed

lemma outcomesLoop_Mandatory:
  "int64 (pe_MandatoryFailedCount r) \<Longrightarrow>
   pe_MandatoryFailedCount (outcomesLoop r xs) =
     wrap64 (pe_MandatoryFailedCount r + int (length (filter isMandatoryFailed xs)))"
proof (induction xs arbitrary: r)
  case Nil
  then show ?case by (simp add: wrap64_id)
next
  case (Cons x xs)
  have "int64 (pe_MandatoryFailedCount (countOutcome r x))"
    using Cons.prems by (simp add: countOutcome_Mandatory int64_wrap64)
  from Cons.IH [OF this] show ?case
    by (simp add: countOutcome_Mandatory wrap64_succ_add)
qed

lemma outcomesLoop_Advisory:
  "int64 (pe_AdvisoryFailedCount r) \<Longrightarrow>
   pe_AdvisoryFailedCount (outcomesLoop r xs) =
     wrap64 (pe_AdvisoryFailedCount r + int (length (filter isAdvisoryFailed xs)))"
proof (induction xs arbitrary: r)
  case Nil
  then show ?case by (simp add: wrap64_id)
next
  case (Cons x xs)
  have "int64 (pe_AdvisoryFailedCount (countOutcome r x))"
    using Cons.prems by (simp add: countOutcome_Advisory int64_wrap64)
  from Cons.IH [OF this] show ?case
    by (simp add: countOutcome_Advisory wrap64_succ_add)
qed

lemma outcomesLoop_Errored:
  "int64 (pe_ErroredCount r) \<Longrightarrow>
   pe_ErroredCount (outcomesLoop r xs) =
     wrap64 (pe_ErroredCount r + int (length (filter isErrored xs)))"
proof (induction xs arbitrary: r)
  case Nil
  then show ?case by (simp add: wrap64_id)
next
  case (Cons x xs)
  have "int64 (pe_ErroredCount (countOutcome r x))"
    using Cons.prems by (simp add: countOutcome_Errored int64_wrap64)
  from Cons.IH [OF this] show ?case
    by (simp add: countOutcome_Errored wrap64_succ_add)
qed

lemma outcomesLoop_FailedPolicies:
  "pe_FailedPolicies (outcomesLoop r xs) =
     pe_FailedPolicies r @ map failedDetail (filter isMandatoryFailed xs)"
  by (induction xs arbitrary: r) (simp_all add: countOutcome_FailedPolicies)

lemma outcomesLoop_frame:
  "pe_RunID (outcomesLoop r xs) = pe_RunID r"
  "pe_PolicyStageID (outcomesLoop r xs) = pe_PolicyStageID r"
  "pe_PolicyCheckID (outcomesLoop r xs) = pe_PolicyCheckID r"
  "pe_Status (outcomesLoop r xs) = pe_Status r"
  by (induction xs arbitrary: r) (simp_all add: countOutcome_frame)

lemma outcomesLoop_append:
  "outcomesLoop r (xs @ ys) = outcomesLoop (outcomesLoop r xs) ys"
  by (induction xs arbitrary: r) simp_all

lemma classes_partition:
  "length (filter isPassed xs) + length (filter isAdvisoryFailed xs)
     + length (filter isMandatoryFailed xs) + length (filter isErrored xs)
   = length (filter isRecognized xs)"
  by (induction xs)
     (auto simp: isPassed_def isAdvisoryFailed_def isMandatoryFailed_def isErrored_def
        isRecognized_def)

lemma finishCounts_fields:
  "pe_RunID (finishCounts r) = pe_RunID r"
  "pe_PolicyStageID (finishCounts r) = pe_PolicyStageID r"
  "pe_PolicyCheckID (finishCounts r) = pe_PolicyCheckID r"
  "pe_Status (finishCounts r) = pe_Status r"
  "pe_PassedCount (finishCounts r) = pe_PassedCount r"
  "pe_AdvisoryFailedCount (finishCounts r) = pe_AdvisoryFailedCount r"
  "pe_MandatoryFailedCount (finishCounts r) = pe_MandatoryFailedCount r"
  "pe_ErroredCount (finishCounts r) = pe_ErroredCount r"
  "pe_FailedPolicies (finishCounts r) = pe_FailedPolicies r"
  "pe_TotalCount (finishCounts r) =
     wrap64 (wrap64 (wrap64 (pe_PassedCount r + pe_AdvisoryFailedCount r)
                       + pe_MandatoryFailedCount r) + pe_ErroredCount r)"
  "pe_RequiresOverride (finishCounts r) = (pe_MandatoryFailedCount r > 0)"
  by (simp_all add: finishCounts_def Let_def)

lemma legacy_counts:
  assumes z: "pe_PassedCount r = 0" "pe_AdvisoryFailedCount r = 0"
             "pe_MandatoryFailedCount r = 0" "pe_ErroredCount r = 0"
      and len: "int (length xs) < 2 ^ 63"
  shows "pe_PassedCount (outcomesLoop r xs) = int (length (filter isPassed xs))"
    and "pe_AdvisoryFailedCount (outcomesLoop r xs) = int (length (filter isAdvisoryFailed xs))"
    and "pe_MandatoryFailedCount (outcomesLoop r xs) = int (length (filter isMandatoryFailed xs))"
    and "pe_ErroredCount (outcomesLoop r xs) = int (length (filter isErrored xs))"
proof -
  have i0: "int64 0" by (simp add: int64_def)
  show "pe_PassedCount (outcomesLoop r xs) = int (length (filter isPassed xs))"
    using outcomesLoop_Passed [of r xs] z i0 wrap64_nat_le [OF length_filter_le len]
    by simp
  show "pe_AdvisoryFailedCount (outcomesLoop r xs) = int (length (filter isAdvisoryFailed xs))"
    using outcomesLoop_Advisory [of r xs] z i0 wrap64_nat_le [OF length_filter_le len]
    by simp
  show "pe_MandatoryFailedCount (outcomesLoop r xs) = int (length (filter isMandatoryFailed xs))"
    using outcomesLoop_Mandatory [of r xs] z i0 wrap64_nat_le [OF length_filter_le len]
    by simp
  show "pe_ErroredCount (outcomesLoop r xs) = int (length (filter isErrored xs))"
    using outcomesLoop_Errored [of r xs] z i0 wrap64_nat_le [OF length_filter_le len]
    by simp
qed

lemma legacy_total:
  assumes z: "pe_PassedCount r = 0" "pe_AdvisoryFailedCount r = 0"
             "pe_MandatoryFailedCount r = 0" "pe_ErroredCount r = 0"
      and len: "int (length xs) < 2 ^ 63"
  shows "pe_TotalCount (finishCounts (outcomesLoop r xs)) = int (length (filter isRecognized xs))"
proof -
  let ?p = "int (length (filter isPassed xs))"
  let ?a = "int (length (filter isAdvisoryFailed xs))"
  let ?m = "int (length (filter isMandatoryFailed xs))"
  let ?e = "int (length (filter isErrored xs))"
  have sum: "?p + ?a + ?m + ?e = int (length (filter isRecognized xs))"
    using classes_partition [of xs] by linarith
  have "int (length (filter isRecognized xs)) \<le> int (length xs)" by simp
  with len sum have bound: "?p + ?a + ?m + ?e < 2 ^ 63" by linarith
  have "wrap64 (wrap64 (wrap64 (?p + ?a) + ?m) + ?e) = ?p + ?a + ?m + ?e"
    by (rule wrapped_sum_exact) (use bound in simp_all)
  then show ?thesis
    by (simp only: finishCounts_fields legacy_counts [OF z len] sum)
qed

section \<open>The legacy normalizer, field by field\<close>


lemma legacy_start:
  "pe_PassedCount (PolicyEvaluation_zero\<lparr>pe_PolicyCheckID := c, pe_Status := s\<rparr>) = 0"
  "pe_AdvisoryFailedCount (PolicyEvaluation_zero\<lparr>pe_PolicyCheckID := c, pe_Status := s\<rparr>) = 0"
  "pe_MandatoryFailedCount (PolicyEvaluation_zero\<lparr>pe_PolicyCheckID := c, pe_Status := s\<rparr>) = 0"
  "pe_ErroredCount (PolicyEvaluation_zero\<lparr>pe_PolicyCheckID := c, pe_Status := s\<rparr>) = 0"
  "pe_FailedPolicies (PolicyEvaluation_zero\<lparr>pe_PolicyCheckID := c, pe_Status := s\<rparr>) = []"
  "pe_RunID (PolicyEvaluation_zero\<lparr>pe_PolicyCheckID := c, pe_Status := s\<rparr>) = []"
  "pe_PolicyStageID (PolicyEvaluation_zero\<lparr>pe_PolicyCheckID := c, pe_Status := s\<rparr>) = []"
  "pe_PolicyCheckID (PolicyEvaluation_zero\<lparr>pe_PolicyCheckID := c, pe_Status := s\<rparr>) = c"
  "pe_Status (PolicyEvaluation_zero\<lparr>pe_PolicyCheckID := c, pe_Status := s\<rparr>) = s"
  by (simp_all add: PolicyEvaluation_zero_def)

lemma countOutcome_RunID_update:
  "countOutcome (r\<lparr>pe_RunID := i\<rparr>) x = (countOutcome r x)\<lparr>pe_RunID := i\<rparr>"
  by (simp add: countOutcome_def)

lemma outcomesLoop_RunID_update:
  "outcomesLoop (r\<lparr>pe_RunID := i\<rparr>) xs = (outcomesLoop r xs)\<lparr>pe_RunID := i\<rparr>"
  by (induction xs arbitrary: r) (simp_all add: countOutcome_RunID_update)

lemma finishCounts_RunID_update:
  "finishCounts (r\<lparr>pe_RunID := i\<rparr>) = (finishCounts r)\<lparr>pe_RunID := i\<rparr>"
  by (simp add: finishCounts_def Let_def)

lemma getPolicyFromPolicyCheck_eq:
  "getPolicyFromPolicyCheck run check = (mapFromPolicyCheck check)\<lparr>pe_RunID := run_ID run\<rparr>"
proof -
  have "PolicyEvaluation_zero\<lparr>pe_RunID := run_ID run, pe_PolicyCheckID := pc_ID check,
           pe_Status := pc_Status check\<rparr>
        = (PolicyEvaluation_zero\<lparr>pe_PolicyCheckID := pc_ID check, pe_Status := pc_Status check\<rparr>)
            \<lparr>pe_RunID := run_ID run\<rparr>"
    by simp
  then show ?thesis
    unfolding getPolicyFromPolicyCheck_def mapFromPolicyCheck_def Let_def
    by (simp only: outcomesLoop_RunID_update finishCounts_RunID_update)
qed

lemma mapFromPolicyCheck_counts:
  assumes len: "int (length (pc_PolicySetOutcomes c)) < 2 ^ 63"
  shows "pe_PassedCount (mapFromPolicyCheck c) = int (length (filter isPassed (pc_PolicySetOutcomes c)))"
    and "pe_AdvisoryFailedCount (mapFromPolicyCheck c)
           = int (length (filter isAdvisoryFailed (pc_PolicySetOutcomes c)))"
    and "pe_MandatoryFailedCount (mapFromPolicyCheck c)
           = int (length (filter isMandatoryFailed (pc_PolicySetOutcomes c)))"
    and "pe_ErroredCount (mapFromPolicyCheck c) = int (length (filter isErrored (pc_PolicySetOutcomes c)))"
    and "pe_TotalCount (mapFromPolicyCheck c) = int (length (filter isRecognized (pc_PolicySetOutcomes c)))"
    and "pe_RequiresOverride (mapFromPolicyCheck c) = (filter isMandatoryFailed (pc_PolicySetOutcomes c) \<noteq> [])"
proof -
  let ?r = "PolicyEvaluation_zero\<lparr>pe_PolicyCheckID := pc_ID c, pe_Status := pc_Status c\<rparr>"
  have z: "pe_PassedCount ?r = 0" "pe_AdvisoryFailedCount ?r = 0"
          "pe_MandatoryFailedCount ?r = 0" "pe_ErroredCount ?r = 0"
    by (simp_all only: legacy_start)
  note counts = legacy_counts [OF z len]
  have eq: "mapFromPolicyCheck c = finishCounts (outcomesLoop ?r (pc_PolicySetOutcomes c))"
    by (simp add: mapFromPolicyCheck_def)
  show "pe_PassedCount (mapFromPolicyCheck c) = int (length (filter isPassed (pc_PolicySetOutcomes c)))"
    by (simp only: eq finishCounts_fields counts)
  show "pe_AdvisoryFailedCount (mapFromPolicyCheck c)
           = int (length (filter isAdvisoryFailed (pc_PolicySetOutcomes c)))"
    by (simp only: eq finishCounts_fields counts)
  show "pe_MandatoryFailedCount (mapFromPolicyCheck c)
           = int (length (filter isMandatoryFailed (pc_PolicySetOutcomes c)))"
    by (simp only: eq finishCounts_fields counts)
  show "pe_ErroredCount (mapFromPolicyCheck c) = int (length (filter isErrored (pc_PolicySetOutcomes c)))"
    by (simp only: eq finishCounts_fields counts)
  show "pe_TotalCount (mapFromPolicyCheck c) = int (length (filter isRecognized (pc_PolicySetOutcomes c)))"
    unfolding eq by (rule legacy_total [OF z len])
  show "pe_RequiresOverride (mapFromPolicyCheck c) = (filter isMandatoryFailed (pc_PolicySetOutcomes c) \<noteq> [])"
    by (simp only: eq finishCounts_fields counts) simp
qed

lemma mapFromPolicyCheck_frame:
  "pe_RunID (mapFromPolicyCheck c) = []"
  "pe_PolicyStageID (mapFromPolicyCheck c) = []"
  "pe_PolicyCheckID (mapFromPolicyCheck c) = pc_ID c"
  "pe_Status (mapFromPolicyCheck c) = pc_Status c"
  "pe_FailedPolicies (mapFromPolicyCheck c) = map failedDetail (filter isMandatoryFailed (pc_PolicySetOutcomes c))"
  unfolding mapFromPolicyCheck_def Let_def
  by (simp_all only: finishCounts_fields outcomesLoop_frame outcomesLoop_FailedPolicies legacy_start)
     simp_all

section \<open>The legacy scenario\<close>

text \<open>
  C8. For a legacy policy check whose policy-set outcomes are, in order, passed,
  failed with enforcement level mandatory, failed with enforcement level advisory and
  errored, the legacy normalizer (\<^verbatim>\<open>mapFromPolicyCheck\<close> and \<^verbatim>\<open>getPolicyFromPolicyCheck\<close>
  alike) returns a passed count of 1, an advisory-failed count of 1, a mandatory-failed
  count of 1, an errored count of 1 and a total count of 4, whatever the names, the
  identifiers and the status are.
\<close>

theorem legacy_scenario_counts:
  assumes "pc_PolicySetOutcomes check = [o1, o2, o3, o4]"
    and "co_Outcome o1 = ''passed''"
    and "co_Outcome o2 = ''failed''" and "co_EnforcementLevel o2 = ''mandatory''"
    and "co_Outcome o3 = ''failed''" and "co_EnforcementLevel o3 = ''advisory''"
    and "co_Outcome o4 = ''errored''"
  shows "pe_PassedCount (mapFromPolicyCheck check) = 1
       \<and> pe_AdvisoryFailedCount (mapFromPolicyCheck check) = 1
       \<and> pe_MandatoryFailedCount (mapFromPolicyCheck check) = 1
       \<and> pe_ErroredCount (mapFromPolicyCheck check) = 1
       \<and> pe_TotalCount (mapFromPolicyCheck check) = 4
       \<and> pe_PassedCount (getPolicyFromPolicyCheck run check) = 1
       \<and> pe_AdvisoryFailedCount (getPolicyFromPolicyCheck run check) = 1
       \<and> pe_MandatoryFailedCount (getPolicyFromPolicyCheck run check) = 1
       \<and> pe_ErroredCount (getPolicyFromPolicyCheck run check) = 1
       \<and> pe_TotalCount (getPolicyFromPolicyCheck run check) = 4"
proof -
  have len: "int (length (pc_PolicySetOutcomes check)) < 2 ^ 63"
    using assms(1) by simp
  show ?thesis
    using assms
    by (simp add: getPolicyFromPolicyCheck_eq mapFromPolicyCheck_counts [OF len]
          isPassed_def isAdvisoryFailed_def isMandatoryFailed_def isErrored_def isRecognized_def)
qed

text \<open>The scenario of run \<^verbatim>\<open>run-xyz789\<close>, evaluated.\<close>

theorem legacy_scenario_counts_witness:
  "pe_PassedCount (getPolicyFromPolicyCheck run_xyz789 legacy_check_xyz789) = 1
   \<and> pe_AdvisoryFailedCount (getPolicyFromPolicyCheck run_xyz789 legacy_check_xyz789) = 1
   \<and> pe_MandatoryFailedCount (getPolicyFromPolicyCheck run_xyz789 legacy_check_xyz789) = 1
   \<and> pe_ErroredCount (getPolicyFromPolicyCheck run_xyz789 legacy_check_xyz789) = 1
   \<and> pe_TotalCount (getPolicyFromPolicyCheck run_xyz789 legacy_check_xyz789) = 4
   \<and> pe_TotalCount (mapFromPolicyCheck legacy_check_xyz789) = 4"
  using legacy_scenario_counts [of legacy_check_xyz789
      "\<lparr>co_Outcome = ''passed'', co_EnforcementLevel = ''mandatory'', co_PolicyName = ''tag-policy''\<rparr>"
      "\<lparr>co_Outcome = ''failed'', co_EnforcementLevel = ''mandatory'', co_PolicyName = ''aws-cost-limit''\<rparr>"
      "\<lparr>co_Outcome = ''failed'', co_EnforcementLevel = ''advisory'', co_PolicyName = ''naming''\<rparr>"
      "\<lparr>co_Outcome = ''errored'', co_EnforcementLevel = ''mandatory'', co_PolicyName = ''network''\<rparr>"
      run_xyz789]
  by (simp add: legacy_check_xyz789_def)

section \<open>Both normalizers as records\<close>

lemma failedSetsLoop_eq:
  "failedSetsLoop r xs =
     r\<lparr>pe_FailedPolicies := pe_FailedPolicies r @ map failedSetDetail (filter hasMandatoryFailure xs)\<rparr>"
  by (induction xs arbitrary: r)
     (simp_all add: appendFailedSet_def hasMandatoryFailure_def failedSetDetail_def)

lemma mapFromTaskStage_record:
  "mapFromTaskStage ts ev =
     \<lparr>pe_RunID = [], pe_PolicyStageID = ts_ID ts, pe_PolicyCheckID = [],
      pe_TotalCount =
        wrap64 (wrap64 (wrap64 (rc_Passed (ev_ResultCount ev) + rc_AdvisoryFailed (ev_ResultCount ev))
                          + rc_MandatoryFailed (ev_ResultCount ev)) + rc_Errored (ev_ResultCount ev)),
      pe_PassedCount = rc_Passed (ev_ResultCount ev),
      pe_AdvisoryFailedCount = rc_AdvisoryFailed (ev_ResultCount ev),
      pe_MandatoryFailedCount = rc_MandatoryFailed (ev_ResultCount ev),
      pe_ErroredCount = rc_Errored (ev_ResultCount ev),
      pe_FailedPolicies = map failedSetDetail (filter hasMandatoryFailure (ev_PolicySetOutcomes ev)),
      pe_Status = ev_Status ev,
      pe_RequiresOverride = (rc_MandatoryFailed (ev_ResultCount ev) > 0)\<rparr>"
  by (simp add: mapFromTaskStage_def Let_def failedSetsLoop_eq PolicyEvaluation_zero_def)

lemma mapFromPolicyCheck_record:
  assumes len: "int (length (pc_PolicySetOutcomes c)) < 2 ^ 63"
  shows "mapFromPolicyCheck c =
     \<lparr>pe_RunID = [], pe_PolicyStageID = [], pe_PolicyCheckID = pc_ID c,
      pe_TotalCount = int (length (filter isRecognized (pc_PolicySetOutcomes c))),
      pe_PassedCount = int (length (filter isPassed (pc_PolicySetOutcomes c))),
      pe_AdvisoryFailedCount = int (length (filter isAdvisoryFailed (pc_PolicySetOutcomes c))),
      pe_MandatoryFailedCount = int (length (filter isMandatoryFailed (pc_PolicySetOutcomes c))),
      pe_ErroredCount = int (length (filter isErrored (pc_PolicySetOutcomes c))),
      pe_FailedPolicies = map failedDetail (filter isMandatoryFailed (pc_PolicySetOutcomes c)),
      pe_Status = pc_Status c,
      pe_RequiresOverride = (filter isMandatoryFailed (pc_PolicySetOutcomes c) \<noteq> [])\<rparr>"
  by (rule PolicyEvaluation.equality)
     (simp_all add: mapFromPolicyCheck_counts [OF len] mapFromPolicyCheck_frame)




section \<open>Readings of the legacy levels\<close>










section \<open>Format equivalence\<close>





lemma outcomesLoop_skip:
  "\<not> isRecognized x \<Longrightarrow> outcomesLoop r (xs @ x # ys) = outcomesLoop r (xs @ ys)"
  by (simp add: outcomesLoop_append countOutcome_unrecognized)

section \<open>Outcomes the legacy loop does not recognize\<close>

text \<open>
  C10. In the legacy path, an outcome whose text is none of \<^verbatim>\<open>passed\<close>, \<^verbatim>\<open>failed\<close>
  and \<^verbatim>\<open>errored\<close> leaves the result of the loop body as it is: it adds to none of the
  four counts and appends no failed-policy entry, so the normalized value is the one of
  the input without that outcome. The total count is the number of recognized outcomes,
  and it is strictly smaller than the number of outcomes of the raw input.
\<close>

theorem unrecognized_outcome_not_counted:
  assumes other: "co_Outcome x \<noteq> ''passed''" "co_Outcome x \<noteq> ''failed''"
                 "co_Outcome x \<noteq> ''errored''"
      and outcomes: "pc_PolicySetOutcomes check = xs @ x # ys"
      and len: "int (length (pc_PolicySetOutcomes check)) < 2 ^ 63"
  shows "countOutcome result x = result
       \<and> mapFromPolicyCheck check = mapFromPolicyCheck (check\<lparr>pc_PolicySetOutcomes := xs @ ys\<rparr>)
       \<and> getPolicyFromPolicyCheck run check
           = getPolicyFromPolicyCheck run (check\<lparr>pc_PolicySetOutcomes := xs @ ys\<rparr>)
       \<and> pe_TotalCount (mapFromPolicyCheck check)
           = int (length (filter isRecognized (pc_PolicySetOutcomes check)))
       \<and> pe_TotalCount (getPolicyFromPolicyCheck run check)
           = int (length (filter isRecognized (pc_PolicySetOutcomes check)))
       \<and> pe_TotalCount (mapFromPolicyCheck check) < int (length (pc_PolicySetOutcomes check))
       \<and> pe_TotalCount (getPolicyFromPolicyCheck run check)
           < int (length (pc_PolicySetOutcomes check))"
proof -
  have nr: "\<not> isRecognized x" using other by (simp add: isRecognized_def)
  have same: "mapFromPolicyCheck check
              = mapFromPolicyCheck (check\<lparr>pc_PolicySetOutcomes := xs @ ys\<rparr>)"
    by (simp add: mapFromPolicyCheck_def outcomes outcomesLoop_skip [OF nr])
  have total: "pe_TotalCount (mapFromPolicyCheck check)
               = int (length (filter isRecognized (pc_PolicySetOutcomes check)))"
    by (rule mapFromPolicyCheck_counts(5) [OF len])
  have "length (filter isRecognized (xs @ x # ys)) < length (xs @ x # ys)"
    using nr by (intro length_filter_less [of x]) simp_all
  then have less: "int (length (filter isRecognized (pc_PolicySetOutcomes check)))
                   < int (length (pc_PolicySetOutcomes check))"
    by (simp only: outcomes of_nat_less_iff)
  show ?thesis
    using countOutcome_unrecognized [OF nr, of result] same total less
    by (simp add: getPolicyFromPolicyCheck_eq)
qed

text \<open>A check with one passed and one \<^verbatim>\<open>pending\<close> outcome: two outcomes, a total of 1.\<close>

theorem unrecognized_outcome_not_counted_witness:
  "pe_TotalCount (mapFromPolicyCheck check_with_unknown) = 1
   \<and> length (pc_PolicySetOutcomes check_with_unknown) = 2
   \<and> mapFromPolicyCheck check_with_unknown
       = mapFromPolicyCheck (check_with_unknown\<lparr>pc_PolicySetOutcomes :=
           [\<lparr>co_Outcome = ''passed'', co_EnforcementLevel = ''mandatory'',
             co_PolicyName = ''tag-policy''\<rparr>]\<rparr>)"
proof -
  let ?p = "\<lparr>co_Outcome = ''passed'', co_EnforcementLevel = ''mandatory'',
             co_PolicyName = ''tag-policy''\<rparr>"
  let ?x = "\<lparr>co_Outcome = ''pending'', co_EnforcementLevel = ''advisory'',
             co_PolicyName = ''naming''\<rparr>"
  have outcomes: "pc_PolicySetOutcomes check_with_unknown = [?p] @ ?x # []"
    by (simp add: check_with_unknown_def)
  have len: "int (length (pc_PolicySetOutcomes check_with_unknown)) < 2 ^ 63"
    by (simp add: check_with_unknown_def)
  have n: "length (filter isRecognized (pc_PolicySetOutcomes check_with_unknown)) = 1"
          "length (pc_PolicySetOutcomes check_with_unknown) = 2"
    by (simp_all add: check_with_unknown_def isRecognized_def)
  have "co_Outcome ?x \<noteq> ''passed''" "co_Outcome ?x \<noteq> ''failed''" "co_Outcome ?x \<noteq> ''errored''"
    by simp_all
  from unrecognized_outcome_not_counted [OF this outcomes len, of PolicyEvaluation_zero run_xyz789]
  have total: "pe_TotalCount (mapFromPolicyCheck check_with_unknown)
               = int (length (filter isRecognized (pc_PolicySetOutcomes check_with_unknown)))"
    and same: "mapFromPolicyCheck check_with_unknown
               = mapFromPolicyCheck (check_with_unknown\<lparr>pc_PolicySetOutcomes := [?p] @ []\<rparr>)"
    by blast+
  show ?thesis
  proof (intro conjI)
    show "pe_TotalCount (mapFromPolicyCheck check_with_unknown) = 1"
      using total n(1) by simp
    show "length (pc_PolicySetOutcomes check_with_unknown) = 2"
      by (rule n(2))
    show "mapFromPolicyCheck check_with_unknown
          = mapFromPolicyCheck (check_with_unknown\<lparr>pc_PolicySetOutcomes := [?p]\<rparr>)"
      using same by simp
  qed
qed

lemma validStringID_empty: "\<not> validStringID []"
  by (simp add: validStringID_def)

lemma validStringID_run_xyz789: "validStringID ''run-xyz789''"
  by (simp add: validStringID_def is_lower_def is_alnum_def is_upper_def is_digit_def)

section \<open>The invariants of normalized values\<close>

text \<open>
  C1, as the spec states it, fails in its last part. Neither mapping function sets the
  run identifier, so the value either of them produces does not pass
  \<^verbatim>\<open>PolicyEvaluation.Validate\<close>, whose first check is the run identifier: here for the
  legacy check of run \<^verbatim>\<open>run-xyz789\<close> and for a modern evaluation with counts 5, 1, 2, 0.
  The modern path copies the counts of the API as they are, so a negative count of the
  API is a negative count of the normalized value.
\<close>

theorem normalizer_validate_counterexample:
  "PolicyEvaluation_Validate (mapFromPolicyCheck legacy_check_xyz789)
     = Some (Errorf ''invalid run ID: '')
   \<and> PolicyEvaluation_Validate (mapFromTaskStage stage_abc123 eval_abc123)
     = Some (Errorf ''invalid run ID: '')
   \<and> pe_PassedCount (mapFromTaskStage stage_abc123 eval_negative_count) = - 1
   \<and> pe_TotalCount (mapFromTaskStage stage_abc123 eval_negative_count) = - 1"
proof (intro conjI)
  show "PolicyEvaluation_Validate (mapFromPolicyCheck legacy_check_xyz789)
          = Some (Errorf ''invalid run ID: '')"
    by (simp add: PolicyEvaluation_Validate_def mapFromPolicyCheck_frame validStringID_empty)
  show "PolicyEvaluation_Validate (mapFromTaskStage stage_abc123 eval_abc123)
          = Some (Errorf ''invalid run ID: '')"
    by (simp add: PolicyEvaluation_Validate_def mapFromTaskStage_record validStringID_empty)
  show "pe_PassedCount (mapFromTaskStage stage_abc123 eval_negative_count) = - 1"
    by (simp add: mapFromTaskStage_record eval_negative_count_def)
  show "pe_TotalCount (mapFromTaskStage stage_abc123 eval_negative_count) = - 1"
    by (simp add: mapFromTaskStage_record eval_negative_count_def wrap64_def)
qed

lemma legacy_validate:
  assumes len: "int (length (pc_PolicySetOutcomes check)) < 2 ^ 63"
  shows "(PolicyEvaluation_Validate ((mapFromPolicyCheck check)\<lparr>pe_RunID := runID\<rparr>) = None)
         = (validStringID runID \<and> pc_ID check \<noteq> [])"
proof -
  let ?xs = "pc_PolicySetOutcomes check"
  let ?p = "int (length (filter isPassed ?xs))"
  let ?a = "int (length (filter isAdvisoryFailed ?xs))"
  let ?m = "int (length (filter isMandatoryFailed ?xs))"
  let ?e = "int (length (filter isErrored ?xs))"
  have sum: "?p + ?a + ?m + ?e = int (length (filter isRecognized ?xs))"
    using classes_partition [of ?xs] by linarith
  have "int (length (filter isRecognized ?xs)) \<le> int (length ?xs)" by simp
  with len sum have "?p + ?a + ?m + ?e < 2 ^ 63" by linarith
  then have "wrap64 (wrap64 (wrap64 (?p + ?a) + ?m) + ?e) = ?p + ?a + ?m + ?e"
    by (intro wrapped_sum_exact) simp_all
  with sum have total: "wrap64 (wrap64 (wrap64 (?p + ?a) + ?m) + ?e)
                        = int (length (filter isRecognized ?xs))"
    by simp
  show ?thesis
    unfolding mapFromPolicyCheck_record [OF len]
    by (simp add: PolicyEvaluation_Validate_def total Let_def)
qed

lemma modern_validate:
  "(PolicyEvaluation_Validate ((mapFromTaskStage stage policyEval)\<lparr>pe_RunID := runID\<rparr>) = None)
   = (validStringID runID \<and> ts_ID stage \<noteq> []
      \<and> 0 \<le> rc_Passed (ev_ResultCount policyEval)
      \<and> 0 \<le> rc_AdvisoryFailed (ev_ResultCount policyEval)
      \<and> 0 \<le> rc_MandatoryFailed (ev_ResultCount policyEval)
      \<and> 0 \<le> rc_Errored (ev_ResultCount policyEval)
      \<and> 0 \<le> pe_TotalCount (mapFromTaskStage stage policyEval))"
  unfolding mapFromTaskStage_record
  by (auto simp add: PolicyEvaluation_Validate_def Let_def)

text \<open>
  C1, amended. Every value the normalizer produces has a total count equal to the 64-bit
  sum of its four counts, and requires an override if and only if its mandatory-failed
  count is positive. On the modern path the four counts are those of the API. On the
  legacy path the four counts are not negative and the total is their exact sum. The
  value passes \<^verbatim>\<open>PolicyEvaluation.Validate\<close> exactly when, in addition, it carries a
  well-formed run identifier (\<^verbatim>\<open>getPolicyFromPolicyCheck\<close> copies the run's identifier
  into the value of \<^verbatim>\<open>mapFromPolicyCheck\<close>), its stage or check identifier is not empty
  and none of its counts is negative. A legacy check has fewer than \<open>2^63\<close> outcomes, as
  the length of every Go slice is an \<^verbatim>\<open>int\<close>.
\<close>

theorem normalizer_invariants:
  fixes stage :: TaskStage and policyEval :: tfe_PolicyEvaluation and check :: PolicyCheck
    and modern legacy :: PolicyEvaluation
  defines "modern \<equiv> mapFromTaskStage stage policyEval"
      and "legacy \<equiv> mapFromPolicyCheck check"
  assumes len: "int (length (pc_PolicySetOutcomes check)) < 2 ^ 63"
  shows "pe_TotalCount modern
           = wrap64 (wrap64 (wrap64 (pe_PassedCount modern + pe_AdvisoryFailedCount modern)
                               + pe_MandatoryFailedCount modern) + pe_ErroredCount modern)
       \<and> pe_RequiresOverride modern = (pe_MandatoryFailedCount modern > 0)
       \<and> pe_PassedCount modern = rc_Passed (ev_ResultCount policyEval)
       \<and> pe_AdvisoryFailedCount modern = rc_AdvisoryFailed (ev_ResultCount policyEval)
       \<and> pe_MandatoryFailedCount modern = rc_MandatoryFailed (ev_ResultCount policyEval)
       \<and> pe_ErroredCount modern = rc_Errored (ev_ResultCount policyEval)
       \<and> (PolicyEvaluation_Validate (modern\<lparr>pe_RunID := runID\<rparr>) = None)
           = (validStringID runID \<and> ts_ID stage \<noteq> []
              \<and> 0 \<le> pe_PassedCount modern \<and> 0 \<le> pe_AdvisoryFailedCount modern
              \<and> 0 \<le> pe_MandatoryFailedCount modern \<and> 0 \<le> pe_ErroredCount modern
              \<and> 0 \<le> pe_TotalCount modern)
       \<and> 0 \<le> pe_PassedCount legacy \<and> 0 \<le> pe_AdvisoryFailedCount legacy
       \<and> 0 \<le> pe_MandatoryFailedCount legacy \<and> 0 \<le> pe_ErroredCount legacy
       \<and> pe_TotalCount legacy
           = pe_PassedCount legacy + pe_AdvisoryFailedCount legacy
             + pe_MandatoryFailedCount legacy + pe_ErroredCount legacy
       \<and> pe_RequiresOverride legacy = (pe_MandatoryFailedCount legacy > 0)
       \<and> (PolicyEvaluation_Validate (legacy\<lparr>pe_RunID := runID\<rparr>) = None)
           = (validStringID runID \<and> pc_ID check \<noteq> [])
       \<and> getPolicyFromPolicyCheck run check = legacy\<lparr>pe_RunID := run_ID run\<rparr>
       \<and> (PolicyEvaluation_Validate (getPolicyFromPolicyCheck run check) = None)
           = (validStringID (run_ID run) \<and> pc_ID check \<noteq> [])"
proof -
  have m: "pe_TotalCount modern
             = wrap64 (wrap64 (wrap64 (pe_PassedCount modern + pe_AdvisoryFailedCount modern)
                                 + pe_MandatoryFailedCount modern) + pe_ErroredCount modern)"
          "pe_RequiresOverride modern = (pe_MandatoryFailedCount modern > 0)"
          "pe_PassedCount modern = rc_Passed (ev_ResultCount policyEval)"
          "pe_AdvisoryFailedCount modern = rc_AdvisoryFailed (ev_ResultCount policyEval)"
          "pe_MandatoryFailedCount modern = rc_MandatoryFailed (ev_ResultCount policyEval)"
          "pe_ErroredCount modern = rc_Errored (ev_ResultCount policyEval)"
    by (simp_all add: modern_def mapFromTaskStage_record)
  have mv: "(PolicyEvaluation_Validate (modern\<lparr>pe_RunID := runID\<rparr>) = None)
           = (validStringID runID \<and> ts_ID stage \<noteq> []
              \<and> 0 \<le> pe_PassedCount modern \<and> 0 \<le> pe_AdvisoryFailedCount modern
              \<and> 0 \<le> pe_MandatoryFailedCount modern \<and> 0 \<le> pe_ErroredCount modern
              \<and> 0 \<le> pe_TotalCount modern)"
    unfolding m(3-6) unfolding modern_def by (rule modern_validate)
  note c = mapFromPolicyCheck_counts [OF len]
  have l: "0 \<le> pe_PassedCount legacy" "0 \<le> pe_AdvisoryFailedCount legacy"
          "0 \<le> pe_MandatoryFailedCount legacy" "0 \<le> pe_ErroredCount legacy"
    by (simp_all add: legacy_def c)
  have lt: "pe_TotalCount legacy
              = pe_PassedCount legacy + pe_AdvisoryFailedCount legacy
                + pe_MandatoryFailedCount legacy + pe_ErroredCount legacy"
    unfolding legacy_def c using classes_partition [of "pc_PolicySetOutcomes check"] by linarith
  have lr: "pe_RequiresOverride legacy = (pe_MandatoryFailedCount legacy > 0)"
    by (simp add: legacy_def c)
  have lv: "(PolicyEvaluation_Validate (legacy\<lparr>pe_RunID := runID\<rparr>) = None)
            = (validStringID runID \<and> pc_ID check \<noteq> [])" for runID
    unfolding legacy_def by (rule legacy_validate [OF len])
  have g: "getPolicyFromPolicyCheck run check = legacy\<lparr>pe_RunID := run_ID run\<rparr>"
    unfolding legacy_def by (rule getPolicyFromPolicyCheck_eq)
  have gv: "(PolicyEvaluation_Validate (getPolicyFromPolicyCheck run check) = None)
            = (validStringID (run_ID run) \<and> pc_ID check \<noteq> [])"
    unfolding g by (rule lv)
  from m mv l lt lr lv [of runID] g gv show ?thesis by blast
qed

text \<open>
  The legacy scenario under its run, and the modern scenario with counts 5, 1, 2, 0: both
  pass validation once the run identifier is set.
\<close>

theorem normalizer_invariants_witness:
  "PolicyEvaluation_Validate (getPolicyFromPolicyCheck run_xyz789 legacy_check_xyz789) = None
   \<and> pe_TotalCount (mapFromPolicyCheck legacy_check_xyz789)
       = pe_PassedCount (mapFromPolicyCheck legacy_check_xyz789)
         + pe_AdvisoryFailedCount (mapFromPolicyCheck legacy_check_xyz789)
         + pe_MandatoryFailedCount (mapFromPolicyCheck legacy_check_xyz789)
         + pe_ErroredCount (mapFromPolicyCheck legacy_check_xyz789)
   \<and> pe_RequiresOverride (mapFromTaskStage stage_abc123 eval_abc123)
   \<and> pe_TotalCount (mapFromTaskStage stage_abc123 eval_abc123) = 8
   \<and> PolicyEvaluation_Validate
        ((mapFromTaskStage stage_abc123 eval_abc123)\<lparr>pe_RunID := ''run-xyz789''\<rparr>) = None"
proof -
  have len: "int (length (pc_PolicySetOutcomes legacy_check_xyz789)) < 2 ^ 63"
    by (simp add: legacy_check_xyz789_def)
  have ids: "validStringID (run_ID run_xyz789)" "pc_ID legacy_check_xyz789 \<noteq> []"
            "ts_ID stage_abc123 \<noteq> []"
    by (simp_all add: run_xyz789_def legacy_check_xyz789_def stage_abc123_def
          validStringID_run_xyz789)
  have counts: "rc_Passed (ev_ResultCount eval_abc123) = 5"
               "rc_AdvisoryFailed (ev_ResultCount eval_abc123) = 1"
               "rc_MandatoryFailed (ev_ResultCount eval_abc123) = 2"
               "rc_Errored (ev_ResultCount eval_abc123) = 0"
    by (simp_all add: eval_abc123_def)
  have w: "wrap64 (wrap64 (wrap64 (5 + 1) + 2) + 0) = 8"
    by (simp add: wrap64_def)
  let ?modern = "mapFromTaskStage stage_abc123 eval_abc123"
  from normalizer_invariants [OF len, of stage_abc123 eval_abc123 "''run-xyz789''" run_xyz789]
  have total: "pe_TotalCount ?modern
                 = wrap64 (wrap64 (wrap64 (pe_PassedCount ?modern + pe_AdvisoryFailedCount ?modern)
                                     + pe_MandatoryFailedCount ?modern) + pe_ErroredCount ?modern)"
    and req: "pe_RequiresOverride ?modern = (pe_MandatoryFailedCount ?modern > 0)"
    and cs: "pe_PassedCount ?modern = rc_Passed (ev_ResultCount eval_abc123)"
            "pe_AdvisoryFailedCount ?modern = rc_AdvisoryFailed (ev_ResultCount eval_abc123)"
            "pe_MandatoryFailedCount ?modern = rc_MandatoryFailed (ev_ResultCount eval_abc123)"
            "pe_ErroredCount ?modern = rc_Errored (ev_ResultCount eval_abc123)"
    and mv: "(PolicyEvaluation_Validate (?modern\<lparr>pe_RunID := ''run-xyz789''\<rparr>) = None)
             = (validStringID ''run-xyz789'' \<and> ts_ID stage_abc123 \<noteq> []
                \<and> 0 \<le> pe_PassedCount ?modern \<and> 0 \<le> pe_AdvisoryFailedCount ?modern
                \<and> 0 \<le> pe_MandatoryFailedCount ?modern \<and> 0 \<le> pe_ErroredCount ?modern
                \<and> 0 \<le> pe_TotalCount ?modern)"
    and lt: "pe_TotalCount (mapFromPolicyCheck legacy_check_xyz789)
             = pe_PassedCount (mapFromPolicyCheck legacy_check_xyz789)
               + pe_AdvisoryFailedCount (mapFromPolicyCheck legacy_check_xyz789)
               + pe_MandatoryFailedCount (mapFromPolicyCheck legacy_check_xyz789)
               + pe_ErroredCount (mapFromPolicyCheck legacy_check_xyz789)"
    and gv: "(PolicyEvaluation_Validate (getPolicyFromPolicyCheck run_xyz789 legacy_check_xyz789)
                = None)
             = (validStringID (run_ID run_xyz789) \<and> pc_ID legacy_check_xyz789 \<noteq> [])"
    by blast+
  have t8: "pe_TotalCount ?modern = 8"
    unfolding total cs counts by (rule w)
  show ?thesis
  proof (intro conjI)
    show "PolicyEvaluation_Validate (getPolicyFromPolicyCheck run_xyz789 legacy_check_xyz789) = None"
      using gv ids by simp
    show "pe_TotalCount (mapFromPolicyCheck legacy_check_xyz789)
          = pe_PassedCount (mapFromPolicyCheck legacy_check_xyz789)
            + pe_AdvisoryFailedCount (mapFromPolicyCheck legacy_check_xyz789)
            + pe_MandatoryFailedCount (mapFromPolicyCheck legacy_check_xyz789)
            + pe_ErroredCount (mapFromPolicyCheck legacy_check_xyz789)"
      by (rule lt)
    show "pe_RequiresOverride ?modern"
      unfolding req cs counts by simp
    show "pe_TotalCount ?modern = 8"
      by (rule t8)
    show "PolicyEvaluation_Validate (?modern\<lparr>pe_RunID := ''run-xyz789''\<rparr>) = None"
      unfolding mv t8 cs counts using validStringID_run_xyz789 ids by simp
  qed
qed

lemma validStringID_run_abc123: "validStringID ''run-abc123''"
  by (simp add: validStringID_def is_lower_def is_alnum_def is_upper_def is_digit_def)

section \<open>Validation of an override\<close>

text \<open>
  C9. \<^verbatim>\<open>PolicyOverride.Validate\<close> accepts a value whose stage identifier and check
  identifier are both set: it rejects the value with neither, but has no check for the
  value with both, which the claim says it rejects.
\<close>

theorem override_validate_accepts_both_ids:
  "PolicyOverride_Validate override_both_ids = None
   \<and> po_PolicyStageID override_both_ids \<noteq> [] \<and> po_PolicyCheckID override_both_ids \<noteq> []"
  by (simp add: PolicyOverride_Validate_def override_both_ids_def validStringID_run_abc123
        validFinalStatuses_def)

text \<open>
  \<^verbatim>\<open>PolicyEvaluation.Validate\<close>, next to it in the same file, does reject the value with
  both identifiers; and what \<^verbatim>\<open>PolicyOverride.Validate\<close> does check.
\<close>

lemma evaluation_validate_rejects_both_ids:
  "pe_PolicyStageID pe \<noteq> [] \<Longrightarrow> pe_PolicyCheckID pe \<noteq> [] \<Longrightarrow> PolicyEvaluation_Validate pe \<noteq> None"
  by (simp add: PolicyEvaluation_Validate_def)

lemma override_validate_iff:
  "(PolicyOverride_Validate po = None)
   = (validStringID (po_RunID po)
      \<and> (po_PolicyStageID po \<noteq> [] \<or> po_PolicyCheckID po \<noteq> [])
      \<and> po_Justification po \<noteq> []
      \<and> po_InitialStatus po = ''post_plan_awaiting_decision''
      \<and> po_FinalStatus po \<in> set validFinalStatuses)"
  by (auto simp add: PolicyOverride_Validate_def)

section \<open>The justification of an override\<close>

text \<open>
  C2. For the justification \<^verbatim>\<open>hi\<close>, two characters long, and the run identifier
  \<^verbatim>\<open>run-abc123\<close>, \<^verbatim>\<open>OverridePolicyOptions.Validate\<close> of \<^verbatim>\<open>internal/cloud\<close> returns no
  error: it rejects the empty justification only. \<^verbatim>\<open>OverridePolicy\<close> of \<^verbatim>\<open>research.md\<close>
  does not look at the length either: against a run that awaits the decision it overrides
  the stage and adds the comment.
\<close>

theorem short_justification_accepted:
  "OverridePolicyOptions_Validate options_hi = None
   \<and> length (o_Justification options_hi) < 10
   \<and> OverridePolicy ''overridden'' client_awaiting options_hi no_effects
       = (Inr \<lparr>po_RunID = ''run-abc123'', po_PolicyStageID = ''ts-xyz789'', po_PolicyCheckID = [],
               po_Justification = ''hi'', po_InitialStatus = ''post_plan_awaiting_decision'',
               po_FinalStatus = [], po_OverrideComplete = False,
               po_Timestamp = 0\<rparr>,
          \<lparr>calls = [RunsRead ''run-abc123'', TaskStagesOverride ''ts-xyz789'' ''hi'',
                    CommentsCreate ''run-abc123'' ''Policy Override: hi''],
           logged = []\<rparr>)"
  by (simp add: OverridePolicyOptions_Validate_def options_hi_def validStringID_run_abc123
        OverridePolicy_def validateOverrideEligibility_def client_awaiting_def run_awaiting_def
        RunPostPlanAwaitingDecision_def hasTaskStage_def stage_abc123_def
        overrideViaTaskStage_def addComment_def called_def log_Printf_def no_effects_def Let_def)

section \<open>The precondition of an override\<close>

lemma validateOverrideEligibility_wrong_status:
  assumes "Runs_Read tfe runID = Inr run"
      and "run_Status run \<noteq> ''post_plan_awaiting_decision''"
  shows "validateOverrideEligibility tfe runID w
         = (Inl (Errorf (''run status is '' @ run_Status run
                         @ '', expected post_plan_awaiting_decision'')),
            w\<lparr>calls := calls w @ [RunsRead runID]\<rparr>)"
  using assms
  by (simp add: validateOverrideEligibility_def called_def RunPostPlanAwaitingDecision_def Let_def)

lemma validateOverrideEligibility_awaiting:
  assumes "Runs_Read tfe runID = Inr run"
      and "run_Status run = ''post_plan_awaiting_decision''"
  shows "validateOverrideEligibility tfe runID w = (Inr run, w\<lparr>calls := calls w @ [RunsRead runID]\<rparr>)"
  using assms
  by (simp add: validateOverrideEligibility_def called_def RunPostPlanAwaitingDecision_def Let_def)

text \<open>
  C4. For every call of \<^verbatim>\<open>OverridePolicy\<close> against an existing run whose status is not
  \<^verbatim>\<open>post_plan_awaiting_decision\<close>, the call returns an error whose message holds both
  the observed status and the expected status \<^verbatim>\<open>post_plan_awaiting_decision\<close>, and the
  only call it makes is the read of the run: no stage override, no check override and no
  comment.
\<close>

theorem override_refused_outside_awaiting_decision:
  assumes read: "Runs_Read tfe (o_RunID options) = Inr run"
      and status: "run_Status run \<noteq> ''post_plan_awaiting_decision''"
  shows "OverridePolicy TaskStageOverridden tfe options w
           = (Inl (Errorf (''run status is '' @ run_Status run
                           @ '', expected post_plan_awaiting_decision'')),
              w\<lparr>calls := calls w @ [RunsRead (o_RunID options)]\<rparr>)
       \<and> sublist (run_Status run)
            (''run status is '' @ run_Status run @ '', expected post_plan_awaiting_decision'')
       \<and> sublist ''post_plan_awaiting_decision''
            (''run status is '' @ run_Status run @ '', expected post_plan_awaiting_decision'')
       \<and> filter mutating (calls (snd (OverridePolicy TaskStageOverridden tfe options w)))
           = filter mutating (calls w)"
proof -
  have result: "OverridePolicy TaskStageOverridden tfe options w
           = (Inl (Errorf (''run status is '' @ run_Status run
                           @ '', expected post_plan_awaiting_decision'')),
              w\<lparr>calls := calls w @ [RunsRead (o_RunID options)]\<rparr>)"
    by (simp add: OverridePolicy_def validateOverrideEligibility_wrong_status [OF read status])
  have observed: "sublist (run_Status run)
            (''run status is '' @ run_Status run @ '', expected post_plan_awaiting_decision'')"
    by (rule sublist_appendI)
  have "sublist ''post_plan_awaiting_decision''
          ((''run status is '' @ run_Status run @ '', expected '') @ ''post_plan_awaiting_decision'' @ [])"
    by (rule sublist_appendI)
  then have expected: "sublist ''post_plan_awaiting_decision''
            (''run status is '' @ run_Status run @ '', expected post_plan_awaiting_decision'')"
    by simp
  have effects: "filter mutating (calls (snd (OverridePolicy TaskStageOverridden tfe options w)))
                 = filter mutating (calls w)"
    unfolding result by simp
  from result observed expected effects show ?thesis by blast
qed

text \<open>A run with status \<^verbatim>\<open>applied\<close>.\<close>

theorem override_refused_outside_awaiting_decision_witness:
  "OverridePolicy ''overridden'' client_applied options_hotfix no_effects
     = (Inl (Errorf ''run status is applied, expected post_plan_awaiting_decision''),
        \<lparr>calls = [RunsRead ''run-abc123''], logged = []\<rparr>)"
proof -
  have read: "Runs_Read client_applied (o_RunID options_hotfix)
              = Inr ((run_awaiting ''run-abc123'')\<lparr>run_Status := ''applied''\<rparr>)"
    by (simp add: client_applied_def client_awaiting_def options_hotfix_def)
  have status: "run_Status ((run_awaiting ''run-abc123'')\<lparr>run_Status := ''applied''\<rparr>)
                \<noteq> ''post_plan_awaiting_decision''"
    by simp
  from override_refused_outside_awaiting_decision [OF read status, of "''overridden''" no_effects]
  show ?thesis by (simp add: no_effects_def options_hotfix_def)
qed

section \<open>A comment that fails\<close>

lemma addComment_calls:
  "calls (addComment tfe run justification w)
   = calls w @ [CommentsCreate (run_ID run) (''Policy Override: '' @ justification)]"
  by (simp add: addComment_def called_def log_Printf_def Let_def split: option.splits)

lemma addComment_fails:
  "Comments_Create tfe (run_ID run) (''Policy Override: '' @ justification) = Some err \<Longrightarrow>
   addComment tfe run justification w
   = w\<lparr>calls := calls w @ [CommentsCreate (run_ID run) (''Policy Override: '' @ justification)],
       logged := logged w @ [''[WARN] failed to add comment to run: '' @ Error err]\<rparr>"
  by (simp add: addComment_def called_def log_Printf_def Let_def)

lemma overrideViaTaskStage_result_independent:
  "fst (overrideViaTaskStage T (tfe\<lparr>Comments_Create := cc\<rparr>) run justification w)
   = fst (overrideViaTaskStage T (tfe\<lparr>Comments_Create := cc'\<rparr>) run justification w)"
  by (simp add: overrideViaTaskStage_def Let_def split: option.splits sum.splits)

lemma overrideViaPolicyCheck_result_independent:
  "fst (overrideViaPolicyCheck (tfe\<lparr>Comments_Create := cc\<rparr>) run justification w)
   = fst (overrideViaPolicyCheck (tfe\<lparr>Comments_Create := cc'\<rparr>) run justification w)"
  by (simp add: overrideViaPolicyCheck_def Let_def split: option.splits)

lemma validateOverrideEligibility_comments:
  "validateOverrideEligibility (tfe\<lparr>Comments_Create := cc\<rparr>) runID w
   = validateOverrideEligibility tfe runID w"
  by (simp add: validateOverrideEligibility_def)

lemma OverridePolicy_result_independent:
  "fst (OverridePolicy T (tfe\<lparr>Comments_Create := cc\<rparr>) options w)
   = fst (OverridePolicy T (tfe\<lparr>Comments_Create := cc'\<rparr>) options w)"
proof (cases "validateOverrideEligibility tfe (o_RunID options) w")
  case (Pair r w')
  show ?thesis
  proof (cases r)
    case (Inl err)
    with Pair show ?thesis
      by (simp add: OverridePolicy_def validateOverrideEligibility_comments)
  next
    case (Inr run)
    with Pair show ?thesis
      by (simp add: OverridePolicy_def validateOverrideEligibility_comments hasTaskStage_def
            hasPolicyCheck_def
            overrideViaTaskStage_result_independent [where cc = cc and cc' = cc']
            overrideViaPolicyCheck_result_independent [where cc = cc and cc' = cc'])
  qed
qed

text \<open>
  C5, as the spec states it, fails: when the service accepts the override of the stage
  and then refuses the comment, \<^verbatim>\<open>OverridePolicy\<close> returns the very value, with no
  error, that it returns when the comment is added.
\<close>

theorem comment_failure_counterexample:
  "fst (OverridePolicy ''overridden'' client_comment_fails options_hotfix no_effects)
     = fst (OverridePolicy ''overridden'' client_awaiting options_hotfix no_effects)
   \<and> fst (OverridePolicy ''overridden'' client_comment_fails options_hotfix no_effects)
     = Inr \<lparr>po_RunID = ''run-abc123'', po_PolicyStageID = ''ts-xyz789'', po_PolicyCheckID = [],
            po_Justification = ''Emergency hotfix approved by CTO'',
            po_InitialStatus = ''post_plan_awaiting_decision'', po_FinalStatus = [],
            po_OverrideComplete = False, po_Timestamp = 0\<rparr>
   \<and> calls (snd (OverridePolicy ''overridden'' client_comment_fails options_hotfix no_effects))
     = [RunsRead ''run-abc123'',
        TaskStagesOverride ''ts-xyz789'' ''Emergency hotfix approved by CTO'',
        CommentsCreate ''run-abc123'' ''Policy Override: Emergency hotfix approved by CTO'']
   \<and> Comments_Create client_comment_fails ''run-abc123''
        ''Policy Override: Emergency hotfix approved by CTO''
     = Some (Errorf ''internal server error'')"
  by (simp add: options_hotfix_def
        OverridePolicy_def validateOverrideEligibility_def client_awaiting_def run_awaiting_def
        client_comment_fails_def
        RunPostPlanAwaitingDecision_def hasTaskStage_def stage_abc123_def
        overrideViaTaskStage_def addComment_def called_def log_Printf_def no_effects_def Let_def)

text \<open>
  C5, amended. For every override the service accepts and whose audit comment it then
  refuses, \<^verbatim>\<open>OverridePolicy\<close> logs one warning line and returns the same
  \<^verbatim>\<open>PolicyOverride\<close>, with no error, as when the comment is added: what it returns does not
  depend on the outcome of the comment, on the modern path and on the legacy path alike.
\<close>

theorem comment_failure_only_logged:
  assumes read: "Runs_Read tfe (o_RunID options) = Inr run"
      and status: "run_Status run = ''post_plan_awaiting_decision''"
      and fails: "Comments_Create tfe (run_ID run) (''Policy Override: '' @ o_Justification options)
                  = Some err"
  shows "fst (OverridePolicy T tfe options w)
           = fst (OverridePolicy T (tfe\<lparr>Comments_Create := (\<lambda>runID body. None)\<rparr>) options w)
       \<and> (run_TaskStage run = Some stage \<and> ts_ID stage \<noteq> []
            \<and> TaskStages_Override tfe (ts_ID stage) (o_Justification options) = Inr taskStage
          \<longrightarrow> OverridePolicy T tfe options w
               = (Inr \<lparr>po_RunID = run_ID run, po_PolicyStageID = ts_ID taskStage,
                       po_PolicyCheckID = [], po_Justification = o_Justification options,
                       po_InitialStatus = run_Status run, po_FinalStatus = [],
                       po_OverrideComplete = (ts_Status taskStage = T), po_Timestamp = 0\<rparr>,
                  w\<lparr>calls := calls w @
                       [RunsRead (o_RunID options),
                        TaskStagesOverride (ts_ID stage) (o_Justification options),
                        CommentsCreate (run_ID run) (''Policy Override: '' @ o_Justification options)],
                    logged := logged w @ [''[WARN] failed to add comment to run: '' @ Error err]\<rparr>))
       \<and> (\<not> hasTaskStage run \<and> run_PolicyCheck run = Some check \<and> pc_ID check \<noteq> []
            \<and> PolicyChecks_Override tfe (pc_ID check) = None
          \<longrightarrow> OverridePolicy T tfe options w
               = (Inr \<lparr>po_RunID = run_ID run, po_PolicyStageID = [],
                       po_PolicyCheckID = pc_ID check, po_Justification = o_Justification options,
                       po_InitialStatus = run_Status run, po_FinalStatus = [],
                       po_OverrideComplete = True, po_Timestamp = 0\<rparr>,
                  w\<lparr>calls := calls w @
                       [RunsRead (o_RunID options),
                        PolicyChecksOverride (pc_ID check),
                        CommentsCreate (run_ID run) (''Policy Override: '' @ o_Justification options)],
                    logged := logged w @ [''[WARN] failed to add comment to run: '' @ Error err]\<rparr>))"
proof -
  have same: "fst (OverridePolicy T tfe options w)
           = fst (OverridePolicy T (tfe\<lparr>Comments_Create := (\<lambda>runID body. None)\<rparr>) options w)"
    using OverridePolicy_result_independent
            [where tfe = tfe and cc = "Comments_Create tfe" and cc' = "\<lambda>runID body. None"]
    by simp
  note v = validateOverrideEligibility_awaiting [OF read status]
  have modern: "OverridePolicy T tfe options w
               = (Inr \<lparr>po_RunID = run_ID run, po_PolicyStageID = ts_ID taskStage,
                       po_PolicyCheckID = [], po_Justification = o_Justification options,
                       po_InitialStatus = run_Status run, po_FinalStatus = [],
                       po_OverrideComplete = (ts_Status taskStage = T), po_Timestamp = 0\<rparr>,
                  w\<lparr>calls := calls w @
                       [RunsRead (o_RunID options),
                        TaskStagesOverride (ts_ID stage) (o_Justification options),
                        CommentsCreate (run_ID run) (''Policy Override: '' @ o_Justification options)],
                    logged := logged w @ [''[WARN] failed to add comment to run: '' @ Error err]\<rparr>)"
    if "run_TaskStage run = Some stage" "ts_ID stage \<noteq> []"
       "TaskStages_Override tfe (ts_ID stage) (o_Justification options) = Inr taskStage"
    using that
    by (simp add: OverridePolicy_def v hasTaskStage_def overrideViaTaskStage_def
          addComment_fails [OF fails] called_def Let_def)
  have legacy: "OverridePolicy T tfe options w
               = (Inr \<lparr>po_RunID = run_ID run, po_PolicyStageID = [],
                       po_PolicyCheckID = pc_ID check, po_Justification = o_Justification options,
                       po_InitialStatus = run_Status run, po_FinalStatus = [],
                       po_OverrideComplete = True, po_Timestamp = 0\<rparr>,
                  w\<lparr>calls := calls w @
                       [RunsRead (o_RunID options),
                        PolicyChecksOverride (pc_ID check),
                        CommentsCreate (run_ID run) (''Policy Override: '' @ o_Justification options)],
                    logged := logged w @ [''[WARN] failed to add comment to run: '' @ Error err]\<rparr>)"
    if "\<not> hasTaskStage run" "run_PolicyCheck run = Some check" "pc_ID check \<noteq> []"
       "PolicyChecks_Override tfe (pc_ID check) = None"
    using that
    by (simp add: OverridePolicy_def v hasPolicyCheck_def overrideViaPolicyCheck_def
          addComment_fails [OF fails] called_def Let_def)
  from same modern legacy show ?thesis by blast
qed

text \<open>The stage override of run \<^verbatim>\<open>run-abc123\<close> with a comment that fails.\<close>

theorem comment_failure_only_logged_witness:
  "OverridePolicy ''overridden'' client_comment_fails options_hotfix no_effects
     = (Inr \<lparr>po_RunID = ''run-abc123'', po_PolicyStageID = ''ts-xyz789'', po_PolicyCheckID = [],
             po_Justification = ''Emergency hotfix approved by CTO'',
             po_InitialStatus = ''post_plan_awaiting_decision'', po_FinalStatus = [],
             po_OverrideComplete = False, po_Timestamp = 0\<rparr>,
        \<lparr>calls = [RunsRead ''run-abc123'',
                  TaskStagesOverride ''ts-xyz789'' ''Emergency hotfix approved by CTO'',
                  CommentsCreate ''run-abc123'' ''Policy Override: Emergency hotfix approved by CTO''],
         logged = [''[WARN] failed to add comment to run: internal server error'']\<rparr>)"
proof -
  let ?run = "run_awaiting ''run-abc123''"
  let ?stage = "\<lparr>ts_ID = ''ts-xyz789'', ts_Status = ''running''\<rparr>"
  have read: "Runs_Read client_comment_fails (o_RunID options_hotfix) = Inr ?run"
    by (simp add: client_comment_fails_def client_awaiting_def options_hotfix_def)
  have status: "run_Status ?run = ''post_plan_awaiting_decision''"
    by (simp add: run_awaiting_def)
  have fails: "Comments_Create client_comment_fails (run_ID ?run)
                 (''Policy Override: '' @ o_Justification options_hotfix)
               = Some (Errorf ''internal server error'')"
    by (simp add: client_comment_fails_def)
  have stage: "run_TaskStage ?run = Some stage_abc123" "ts_ID stage_abc123 \<noteq> []"
    by (simp_all add: run_awaiting_def stage_abc123_def)
  have accepted: "TaskStages_Override client_comment_fails (ts_ID stage_abc123)
                    (o_Justification options_hotfix) = Inr ?stage"
    by (simp add: client_comment_fails_def client_awaiting_def stage_abc123_def)
  from comment_failure_only_logged [OF read status fails,
      of "''overridden''" no_effects stage_abc123 ?stage] stage accepted
  have "OverridePolicy ''overridden'' client_comment_fails options_hotfix no_effects
        = (Inr \<lparr>po_RunID = run_ID ?run, po_PolicyStageID = ts_ID ?stage,
                po_PolicyCheckID = [], po_Justification = o_Justification options_hotfix,
                po_InitialStatus = run_Status ?run, po_FinalStatus = [],
                po_OverrideComplete = (ts_Status ?stage = ''overridden''), po_Timestamp = 0\<rparr>,
           no_effects\<lparr>calls := calls no_effects @
                [RunsRead (o_RunID options_hotfix),
                 TaskStagesOverride (ts_ID stage_abc123) (o_Justification options_hotfix),
                 CommentsCreate (run_ID ?run) (''Policy Override: '' @ o_Justification options_hotfix)],
              logged := logged no_effects
                @ [''[WARN] failed to add comment to run: '' @ Error (Errorf ''internal server error'')]\<rparr>)"
    by blast
  then show ?thesis
    by (simp add: run_awaiting_def options_hotfix_def stage_abc123_def no_effects_def)
qed

section \<open>The wait, step by step\<close>

lemma probe_terminal:
  "run_Status run = ''discarded'' \<Longrightarrow> probe (Inr run) = Stopped (Errorf ''run was discarded'')"
  "run_Status run = ''canceled'' \<or> run_Status run = ''force_canceled''
     \<Longrightarrow> probe (Inr run) = Stopped (Errorf ''run was canceled'')"
  "run_Status run = ''errored'' \<Longrightarrow> probe (Inr run) = Stopped (Errorf ''run entered error state'')"
  "run_Status run = ''post_plan_awaiting_decision''
     \<Longrightarrow> probe (Inr run) = Retryable (Errorf ''still awaiting decision'')"
  by (auto simp add: probe_def RunPolicyOverride_def RunPostPlanCompleted_def RunDiscarded_def
        RunCanceled_def RunForceCanceled_def RunErrored_def RunPostPlanAwaitingDecision_def)

lemma probe_Retryable:
  "probe answer = Retryable err \<Longrightarrow>
   err = Errorf ''still awaiting decision'' \<or> (\<exists>status. err = Errorf (''unexpected status: '' @ status))"
  by (auto simp add: probe_def split: sum.splits if_splits)

lemma retry_step_Stopped:
  assumes "\<not> ctx_Done ctx (now p)" and "reads (probes p) = (latency, answer)"
      and "probe answer = Stopped err"
  shows "retry_step ctx b reads p
         = Ended (Failed err) (p\<lparr>now := now p + latency, probes := probes p + 1\<rparr>)"
  using assms by (simp add: retry_step_def Let_def)

lemma retry_Do_Ended:
  "retry_step ctx (policyWaitBackoffStrategy start) reads p = Ended out p'
   \<Longrightarrow> retry_Do ctx start reads p = (out, p')"
  by (simp add: retry_Do.simps)

lemma retry_Do_Polling:
  "retry_step ctx (policyWaitBackoffStrategy start) reads p = Polling p'
   \<Longrightarrow> retry_Do ctx start reads p = retry_Do ctx start reads p'"
  by (subst retry_Do.simps) simp

lemma retry_step_Retryable:
  assumes "\<not> ctx_Done ctx (now p)" and "reads (probes p) = (latency, answer)"
      and "probe answer = Retryable err"
      and "b (now p + latency) (backoff p) = ((nxt, stop), s')"
  shows "retry_step ctx b reads p =
         (if stop then Ended (TimedOut err) (p\<lparr>now := now p + latency, probes := probes p + 1\<rparr>)
          else if ctx_Done ctx (now p + latency) then
            Ended (TimedOut (ctx_Err ctx)) (p\<lparr>now := now p + latency, probes := probes p + 1\<rparr>)
          else if ctx_Done ctx (now p + latency + nxt) then
            Ended (TimedOut (ctx_Err ctx))
              (p\<lparr>now := (case ctx_doneAt ctx of None \<Rightarrow> now p + latency | Some d \<Rightarrow> d),
                 probes := probes p + 1\<rparr>)
          else Polling (p\<lparr>now := now p + latency + nxt, probes := probes p + 1, backoff := s'\<rparr>))"
  using assms by (cases "ctx_doneAt ctx") (simp_all add: retry_step_def Let_def)

lemma retry_step_TimedOut:
  assumes "retry_step ctx b reads p = Ended (TimedOut e) p'"
  shows "e = ctx_Err ctx \<or> e = Errorf ''still awaiting decision''
         \<or> (\<exists>status. e = Errorf (''unexpected status: '' @ status))"
proof -
  obtain latency answer where r: "reads (probes p) = (latency, answer)"
    by (cases "reads (probes p)")
  obtain nxt stop s' where b: "b (now p + latency) (backoff p) = ((nxt, stop), s')"
    by (cases "b (now p + latency) (backoff p)") auto
  show ?thesis
  proof (cases "ctx_Done ctx (now p)")
    case True
    with assms show ?thesis by (simp add: retry_step_def)
  next
    case False
    show ?thesis
    proof (cases "probe answer")
      case (Succeeded run)
      with assms False r show ?thesis by (simp add: retry_step_def Let_def)
    next
      case (Stopped err)
      with assms False r show ?thesis by (simp add: retry_step_def Let_def)
    next
      case (Retryable err)
      from assms retry_step_Retryable [where b = b and reads = reads, OF False r Retryable b]
      have "e = err \<or> e = ctx_Err ctx" by (auto split: if_splits)
      with probe_Retryable [OF Retryable] show ?thesis by auto
    qed
  qed
qed

lemma ctx_Err_cases: "ctx_Err ctx = ContextCanceled \<or> ctx_Err ctx = ContextDeadlineExceeded"
  by (simp add: ctx_Err_def)

lemma retry_Do_TimedOut:
  "retry_Do ctx start reads p = (TimedOut e, p') \<Longrightarrow>
   e = ContextCanceled \<or> e = ContextDeadlineExceeded \<or> e = Errorf ''still awaiting decision''
   \<or> (\<exists>status. e = Errorf (''unexpected status: '' @ status))"
proof (induction ctx start reads p rule: retry_Do.induct)
  case (1 ctx start reads p)
  show ?case
  proof (cases "retry_step ctx (policyWaitBackoffStrategy start) reads p")
    case (Polling q)
    with "1.prems" have "retry_Do ctx start reads q = (TimedOut e, p')"
      by (simp add: retry_Do_Polling)
    from "1.IH" [OF Polling this] show ?thesis .
  next
    case (Ended out q)
    with "1.prems" have "out = TimedOut e" by (simp add: retry_Do_Ended)
    with Ended retry_step_TimedOut [of ctx "policyWaitBackoffStrategy start" reads p e q]
      ctx_Err_cases [of ctx]
    show ?thesis by auto
  qed
qed

lemma strategy_stop:
  "snd (fst (policyWaitBackoffStrategy start t s)) = (start + PolicyWaitMaxDuration \<le> t)"
  by (simp add: policyWaitBackoffStrategy_def WithMaxDuration_def WithCappedDuration_def
        Fibonacci_Next_def Let_def split: prod.splits)

lemma ctx_Done_mono: "ctx_Done ctx t \<Longrightarrow> t \<le> t' \<Longrightarrow> ctx_Done ctx t'"
  by (auto simp add: ctx_Done_def split: option.splits)

lemma first_interval:
  "policyWaitBackoffStrategy 0 (2 * Second) (NewFibonacci PolicyWaitInitialBackoff)
   = ((10 * Second, False), (10 * Second, 10 * Second))"
  by (simp add: policyWaitBackoffStrategy_def WithMaxDuration_def WithCappedDuration_def
        Fibonacci_Next_def NewFibonacci_def PolicyWaitInitialBackoff_def PolicyWaitMaxBackoff_def
        PolicyWaitMaxDuration_def Minute_def Second_def Let_def)

lemma retry_step_Ended_cases:
  assumes step: "retry_step ctx (policyWaitBackoffStrategy start) reads p = Ended out pf"
  shows "(ctx_Done ctx (now p) \<and> pf = p \<and> out = TimedOut (ctx_Err ctx))
       \<or> (\<not> ctx_Done ctx (now p) \<and> probes pf = probes p + 1
           \<and> ((\<exists>run. probe (snd (reads (probes p))) = Succeeded run \<and> out = Done run)
            \<or> (\<exists>err. probe (snd (reads (probes p))) = Stopped err \<and> out = Failed err)
            \<or> (\<exists>err. probe (snd (reads (probes p))) = Retryable err
                 \<and> (out = TimedOut err \<or> out = TimedOut (ctx_Err ctx))
                 \<and> (start + PolicyWaitMaxDuration \<le> now pf \<or> ctx_Done ctx (now pf)))))"
proof -
  obtain latency answer where r: "reads (probes p) = (latency, answer)"
    by (cases "reads (probes p)")
  obtain nxt stop s' where
    b: "policyWaitBackoffStrategy start (now p + latency) (backoff p) = ((nxt, stop), s')"
    by (cases "policyWaitBackoffStrategy start (now p + latency) (backoff p)") auto
  let ?p1 = "p\<lparr>now := now p + latency, probes := probes p + 1\<rparr>"
  show ?thesis
  proof (cases "ctx_Done ctx (now p)")
    case True
    with step show ?thesis by (simp add: retry_step_def)
  next
    case False
    show ?thesis
    proof (cases "probe answer")
      case (Succeeded run)
      with step False r show ?thesis by (auto simp add: retry_step_def Let_def)
    next
      case (Stopped err)
      with step False r show ?thesis by (auto simp add: retry_step_def Let_def)
    next
      case (Retryable err)
      note eq = retry_step_Retryable [where b = "policyWaitBackoffStrategy start" and reads = reads,
                  OF False r Retryable b]
      have pr: "probe (snd (reads (probes p))) = Retryable err" using r Retryable by simp
      show ?thesis
      proof (cases stop)
        case True
        with step eq have pf: "pf = ?p1" and out: "out = TimedOut err" by simp_all
        from True strategy_stop [of start "now p + latency" "backoff p"] b
        have "start + PolicyWaitMaxDuration \<le> now p + latency" by simp
        with pf out pr False show ?thesis by simp
      next
        case ns: False
        show ?thesis
        proof (cases "ctx_Done ctx (now p + latency)")
          case True
          with step eq ns have pf: "pf = ?p1" and out: "out = TimedOut (ctx_Err ctx)" by simp_all
          with True pr False show ?thesis by simp
        next
          case c1: False
          from step eq ns c1 have c2: "ctx_Done ctx (now p + latency + nxt)"
            by (auto split: if_splits)
          then obtain d where d: "ctx_doneAt ctx = Some d"
            by (auto simp add: ctx_Done_def split: option.splits)
          from step eq ns c1 c2 d have pf: "pf = p\<lparr>now := d, probes := probes p + 1\<rparr>"
            and out: "out = TimedOut (ctx_Err ctx)" by simp_all
          from d have "ctx_Done ctx d" by (simp add: ctx_Done_def)
          with pf out pr False show ?thesis by simp
        qed
      qed
    qed
  qed
qed

lemma retry_step_Polling_cases:
  assumes step: "retry_step ctx (policyWaitBackoffStrategy start) reads p = Polling q"
  shows "\<not> ctx_Done ctx (now p) \<and> \<not> ctx_Done ctx (now q) \<and> probes q = probes p + 1
         \<and> (\<exists>err. probe (snd (reads (probes p))) = Retryable err)"
proof -
  obtain latency answer where r: "reads (probes p) = (latency, answer)"
    by (cases "reads (probes p)")
  obtain nxt stop s' where
    b: "policyWaitBackoffStrategy start (now p + latency) (backoff p) = ((nxt, stop), s')"
    by (cases "policyWaitBackoffStrategy start (now p + latency) (backoff p)") auto
  from step r b show ?thesis
    by (auto simp: retry_step_def Let_def split: if_splits probe_result.splits)
qed

lemma retry_Do_probes_mono: "probes p \<le> probes (snd (retry_Do ctx start reads p))"
proof (induction ctx start reads p rule: retry_Do.induct)
  case (1 ctx start reads p)
  show ?case
  proof (cases "retry_step ctx (policyWaitBackoffStrategy start) reads p")
    case (Polling q)
    from "1.IH" [OF Polling] retry_step_Polling_cases [OF Polling] show ?thesis
      by (simp add: retry_Do_Polling [OF Polling])
  next
    case (Ended out q)
    from retry_step_Ended_cases [OF Ended] show ?thesis
      by (auto simp add: retry_Do_Ended [OF Ended])
  qed
qed

lemma retry_Do_first_probe:
  assumes live: "\<not> ctx_Done ctx (now p)"
  shows "probes p < probes (snd (retry_Do ctx start reads p))"
proof (cases "retry_step ctx (policyWaitBackoffStrategy start) reads p")
  case (Polling q)
  from retry_step_Polling_cases [OF Polling] retry_Do_probes_mono [of q ctx start reads]
  show ?thesis by (simp add: retry_Do_Polling [OF Polling])
next
  case (Ended out q)
  from retry_step_Ended_cases [OF Ended] live show ?thesis
    by (auto simp add: retry_Do_Ended [OF Ended])
qed

lemma retry_Do_stopped:
  "retry_Do ctx start reads p = (out, pf) \<Longrightarrow> probes p \<le> k \<Longrightarrow> k < probes pf \<Longrightarrow>
   probe (snd (reads k)) = Stopped err \<Longrightarrow> out = Failed err \<and> probes pf = k + 1"
proof (induction ctx start reads p rule: retry_Do.induct)
  case (1 ctx start reads p)
  show ?case
  proof (cases "retry_step ctx (policyWaitBackoffStrategy start) reads p")
    case (Polling q)
    note q = retry_step_Polling_cases [OF Polling]
    from q "1.prems"(4) have "probes p \<noteq> k" by auto
    with "1.prems"(2) q have le: "probes q \<le> k" by simp
    from "1.prems"(1) have "retry_Do ctx start reads q = (out, pf)"
      by (simp add: retry_Do_Polling [OF Polling])
    from "1.IH" [OF Polling this le "1.prems"(3) "1.prems"(4)] show ?thesis .
  next
    case (Ended out' q)
    with "1.prems"(1) have eq: "out' = out" "q = pf" by (simp_all add: retry_Do_Ended)
    from retry_step_Ended_cases [OF Ended] eq "1.prems"(2,3,4) show ?thesis
      by (auto simp add: less_Suc_eq_le)
  qed
qed

lemma retry_Do_retryable:
  "retry_Do ctx start reads p = (out, pf) \<Longrightarrow> probes p \<le> k \<Longrightarrow> k < probes pf \<Longrightarrow>
   probe (snd (reads k)) = Retryable err \<Longrightarrow>
   k + 1 < probes pf
   \<or> (probes pf = k + 1 \<and> (out = TimedOut err \<or> out = TimedOut (ctx_Err ctx))
       \<and> (start + PolicyWaitMaxDuration \<le> now pf \<or> ctx_Done ctx (now pf)))"
proof (induction ctx start reads p rule: retry_Do.induct)
  case (1 ctx start reads p)
  show ?case
  proof (cases "retry_step ctx (policyWaitBackoffStrategy start) reads p")
    case (Polling q)
    note q = retry_step_Polling_cases [OF Polling]
    from "1.prems"(1) have rq: "retry_Do ctx start reads q = (out, pf)"
      by (simp add: retry_Do_Polling [OF Polling])
    show ?thesis
    proof (cases "probes p = k")
      case True
      from q have "\<not> ctx_Done ctx (now q)" by simp
      from retry_Do_first_probe [OF this, of start reads] rq q True
      show ?thesis by simp
    next
      case False
      with "1.prems"(2) q have le: "probes q \<le> k" by simp
      from "1.IH" [OF Polling rq le "1.prems"(3) "1.prems"(4)] show ?thesis .
    qed
  next
    case (Ended out' q)
    with "1.prems"(1) have eq: "out' = out" "q = pf" by (simp_all add: retry_Do_Ended)
    note cases = retry_step_Ended_cases [OF Ended]
    from cases eq "1.prems"(2,3) have live: "\<not> ctx_Done ctx (now p)"
      and n: "probes pf = probes p + 1" by auto
    with "1.prems"(2,3) have k: "probes p = k" by simp
    from cases live eq "1.prems"(4) show ?thesis unfolding k by auto
  qed
qed

lemma retry_Do_Failed:
  "retry_Do ctx start reads p = (Failed err, pf) \<Longrightarrow>
   probes p < probes pf \<and> probe (snd (reads (probes pf - 1))) = Stopped err"
proof (induction ctx start reads p rule: retry_Do.induct)
  case (1 ctx start reads p)
  show ?case
  proof (cases "retry_step ctx (policyWaitBackoffStrategy start) reads p")
    case (Polling q)
    note q = retry_step_Polling_cases [OF Polling]
    from "1.prems" have "retry_Do ctx start reads q = (Failed err, pf)"
      by (simp add: retry_Do_Polling [OF Polling])
    from "1.IH" [OF Polling this] q show ?thesis by simp
  next
    case (Ended out' q)
    with "1.prems" have eq: "out' = Failed err" "q = pf" by (simp_all add: retry_Do_Ended)
    from retry_step_Ended_cases [OF Ended] eq show ?thesis by auto
  qed
qed

lemma probe_Stopped:
  "probe answer = Stopped err \<Longrightarrow>
   answer = Inl err
   \<or> (\<exists>run. answer = Inr run
        \<and> (run_Status run, err) \<in>
            {(''discarded'', Errorf ''run was discarded''),
             (''canceled'', Errorf ''run was canceled''),
             (''force_canceled'', Errorf ''run was canceled''),
             (''errored'', Errorf ''run entered error state'')})"
  by (auto simp add: probe_def RunPolicyOverride_def RunPostPlanCompleted_def RunDiscarded_def
        RunCanceled_def RunForceCanceled_def RunErrored_def RunPostPlanAwaitingDecision_def
      split: sum.splits if_splits)

lemma probe_terminal_table:
  "(run_Status run, err) \<in>
      {(''discarded'', Errorf ''run was discarded''),
       (''canceled'', Errorf ''run was canceled''),
       (''force_canceled'', Errorf ''run was canceled''),
       (''errored'', Errorf ''run entered error state'')}
   \<Longrightarrow> probe (Inr run) = Stopped err"
  using probe_terminal(1-3) [of run] by auto

lemma WaitForPolicyDecision_Inl:
  assumes "retry_Do (if wo_Timeout options > 0 then WithTimeout ctx t (wo_Timeout options) else ctx)
             t reads \<lparr>now = t, probes = 0, backoff = NewFibonacci PolicyWaitInitialBackoff\<rparr>
           = (out, pf)"
      and "out = Failed err \<or> out = TimedOut err"
  shows "WaitForPolicyDecision ctx reads options t = (Inl err, pf)"
  using assms by (auto simp add: WaitForPolicyDecision_def Let_def)

lemma WaitForPolicyDecision_Inl_cases:
  assumes "fst (WaitForPolicyDecision ctx reads options t) = Inl err"
  shows "fst (retry_Do (if wo_Timeout options > 0 then WithTimeout ctx t (wo_Timeout options) else ctx)
             t reads \<lparr>now = t, probes = 0, backoff = NewFibonacci PolicyWaitInitialBackoff\<rparr>)
         \<in> {Failed err, TimedOut err}"
  using assms
  by (auto simp add: WaitForPolicyDecision_def Let_def split: prod.splits outcome.splits)


lemma WaitForPolicyDecision_state:
  "snd (WaitForPolicyDecision ctx reads options t)
   = snd (retry_Do (if wo_Timeout options > 0 then WithTimeout ctx t (wo_Timeout options) else ctx)
            t reads \<lparr>now = t, probes = 0, backoff = NewFibonacci PolicyWaitInitialBackoff\<rparr>)"
  by (simp add: WaitForPolicyDecision_def Let_def split: prod.splits outcome.splits)

section \<open>The schedule of the wait\<close>

lemma fibonacciInterval_pair_0: "fibonacciInterval (a, b) 0 = a + b"
  by (simp add: Fibonacci_Next_def)

lemma fibonacciInterval_pair_Suc: "fibonacciInterval (a, b) (Suc n) = fibonacciInterval (b, a + b) n"
  by (simp add: Fibonacci_Next_def)

lemma fibonacciInterval_rec:
  "fibonacciInterval (a, b) (Suc (Suc n))
   = fibonacciInterval (a, b) (Suc n) + fibonacciInterval (a, b) n"
proof (induction n arbitrary: a b)
  case 0
  show ?case by (simp add: Fibonacci_Next_def)
next
  case (Suc n)
  have "fibonacciInterval (a, b) (Suc (Suc (Suc n))) = fibonacciInterval (b, a + b) (Suc (Suc n))"
    by (rule fibonacciInterval_pair_Suc)
  also have "\<dots> = fibonacciInterval (b, a + b) (Suc n) + fibonacciInterval (b, a + b) n"
    by (rule Suc.IH)
  also have "\<dots> = fibonacciInterval (a, b) (Suc (Suc n)) + fibonacciInterval (a, b) (Suc n)"
    by (simp only: fibonacciInterval_pair_Suc)
  finally show ?case .
qed

lemma Fibonacci_Next_pair: "Fibonacci_Next t (a, b) = ((a + b, False), (b, a + b))"
  by (simp add: Fibonacci_Next_def)

lemma fibonacciState_pair_Suc: "fibonacciState (a, b) (Suc n) = fibonacciState (b, a + b) n"
  by (simp add: Fibonacci_Next_pair)

lemma Fibonacci_Next_state:
  "Fibonacci_Next t (fibonacciState s n) = ((fibonacciInterval s n, False), fibonacciState s (Suc n))"
proof (induction n arbitrary: s)
  case 0
  obtain a b where s: "s = (a, b)" by (cases s)
  show ?case unfolding s by (simp add: Fibonacci_Next_pair)
next
  case (Suc n)
  obtain a b where s: "s = (a, b)" by (cases s)
  have "Fibonacci_Next t (fibonacciState (a, b) (Suc n)) = Fibonacci_Next t (fibonacciState (b, a + b) n)"
    by (simp only: fibonacciState_pair_Suc)
  also have "\<dots> = ((fibonacciInterval (b, a + b) n, False), fibonacciState (b, a + b) (Suc n))"
    by (rule Suc.IH)
  also have "\<dots> = ((fibonacciInterval (a, b) (Suc n), False), fibonacciState (a, b) (Suc (Suc n)))"
    by (simp only: fibonacciState_pair_Suc fibonacciInterval_pair_Suc)
  finally show ?case unfolding s .
qed

lemma fibonacciInterval_pos: "0 < b \<Longrightarrow> 0 < fibonacciInterval (a, b) n"
proof (induction n arbitrary: a b)
  case 0
  then have "0 < a + b" by simp
  then show ?case by (simp only: fibonacciInterval_pair_0)
next
  case (Suc n)
  from Suc.prems have "0 < a + b" by simp
  from Suc.IH [OF this] show ?case by (simp only: fibonacciInterval_pair_Suc)
qed

lemma policy_interval_pos:
  "0 < min (fibonacciInterval (NewFibonacci PolicyWaitInitialBackoff) n) PolicyWaitMaxBackoff"
proof -
  have "0 < PolicyWaitInitialBackoff" by (simp add: PolicyWaitInitialBackoff_def Second_def)
  then have "0 < fibonacciInterval (NewFibonacci PolicyWaitInitialBackoff) n"
    unfolding NewFibonacci_def by (rule fibonacciInterval_pos)
  moreover have "0 < PolicyWaitMaxBackoff" by (simp add: PolicyWaitMaxBackoff_def Second_def)
  ultimately show ?thesis by simp
qed

lemma strategy_schedule:
  "policyWaitBackoffStrategy start clock (fibonacciState (NewFibonacci PolicyWaitInitialBackoff) n)
   = (if start + PolicyWaitMaxDuration \<le> clock then
        ((0, True), fibonacciState (NewFibonacci PolicyWaitInitialBackoff) n)
      else
        ((min (min (fibonacciInterval (NewFibonacci PolicyWaitInitialBackoff) n) PolicyWaitMaxBackoff)
              (start + PolicyWaitMaxDuration - clock), False),
         fibonacciState (NewFibonacci PolicyWaitInitialBackoff) (Suc n)))"
proof -
  let ?s = "NewFibonacci PolicyWaitInitialBackoff"
  let ?f = "fibonacciInterval ?s n"
  have pos: "0 < min ?f PolicyWaitMaxBackoff" by (rule policy_interval_pos)
  have capped: "WithCappedDuration PolicyWaitMaxBackoff Fibonacci_Next clock (fibonacciState ?s n)
                = ((min ?f PolicyWaitMaxBackoff, False), fibonacciState ?s (Suc n))"
    using pos by (auto simp add: WithCappedDuration_def Fibonacci_Next_state min_def)
  show ?thesis
    unfolding policyWaitBackoffStrategy_def WithMaxDuration_def capped
    using pos by (auto simp add: Let_def min_def)
qed

lemma retry_Do_retried:
  fixes p :: polling
  defines "interval \<equiv>
    min (fibonacciInterval (NewFibonacci PolicyWaitInitialBackoff) (probes p)) PolicyWaitMaxBackoff"
  assumes answer: "reads (probes p) = (latency, answer)"
      and retryable: "probe answer = Retryable err"
      and state: "backoff p = fibonacciState (NewFibonacci PolicyWaitInitialBackoff) (probes p)"
      and live: "\<not> ctx_Done ctx (now p + latency + interval)"
      and left: "now p + latency + interval \<le> start + PolicyWaitMaxDuration"
  shows "retry_Do ctx start reads p
         = retry_Do ctx start reads
             \<lparr>now = now p + latency + interval, probes = probes p + 1,
              backoff = fibonacciState (NewFibonacci PolicyWaitInitialBackoff) (probes p + 1)\<rparr>"
proof -
  have pos: "0 < interval" unfolding interval_def by (rule policy_interval_pos)
  with left have before: "\<not> start + PolicyWaitMaxDuration \<le> now p + latency" by simp
  from left have fits: "interval \<le> start + PolicyWaitMaxDuration - (now p + latency)" by simp
  have b: "policyWaitBackoffStrategy start (now p + latency) (backoff p)
           = ((interval, False), fibonacciState (NewFibonacci PolicyWaitInitialBackoff) (Suc (probes p)))"
    unfolding state strategy_schedule using before fits by (simp add: interval_def)
  have l0: "\<not> ctx_Done ctx (now p)"
    using live ctx_Done_mono [of ctx "now p" "now p + latency + interval"] by auto
  have l1: "\<not> ctx_Done ctx (now p + latency)"
    using live ctx_Done_mono [of ctx "now p + latency" "now p + latency + interval"] by auto
  have "retry_step ctx (policyWaitBackoffStrategy start) reads p
        = Polling (p\<lparr>now := now p + latency + interval, probes := probes p + 1,
                     backoff := fibonacciState (NewFibonacci PolicyWaitInitialBackoff) (Suc (probes p))\<rparr>)"
    using retry_step_Retryable [where b = "policyWaitBackoffStrategy start" and reads = reads,
            OF l0 answer retryable b] live l1
    by simp
  also have "p\<lparr>now := now p + latency + interval, probes := probes p + 1,
                backoff := fibonacciState (NewFibonacci PolicyWaitInitialBackoff) (Suc (probes p))\<rparr>
             = \<lparr>now = now p + latency + interval, probes = probes p + 1,
                backoff = fibonacciState (NewFibonacci PolicyWaitInitialBackoff) (probes p + 1)\<rparr>"
    by (cases p) simp
  finally show ?thesis by (rule retry_Do_Polling)
qed

lemma probeTime_mono: "probeTime reads t n \<le> probeTime reads t (Suc n)"
  by simp

lemma wait_schedule:
  assumes retried: "\<forall>k<n. \<exists>err. probe (snd (reads k)) = Retryable err"
      and live: "\<not> ctx_Done ctx (probeTime reads t n)"
      and left: "probeTime reads t n \<le> t + PolicyWaitMaxDuration"
  shows "retry_Do ctx t reads
           \<lparr>now = t, probes = 0, backoff = NewFibonacci PolicyWaitInitialBackoff\<rparr>
         = retry_Do ctx t reads
             \<lparr>now = probeTime reads t n, probes = n,
              backoff = fibonacciState (NewFibonacci PolicyWaitInitialBackoff) n\<rparr>"
  using assms
proof (induction n)
  case 0
  show ?case by simp
next
  case (Suc n)
  let ?p = "\<lparr>now = probeTime reads t n, probes = n,
             backoff = fibonacciState (NewFibonacci PolicyWaitInitialBackoff) n\<rparr>"
  from Suc.prems(1) have retried: "\<forall>k<n. \<exists>err. probe (snd (reads k)) = Retryable err" by simp
  from Suc.prems(2) ctx_Done_mono [OF _ probeTime_mono, of ctx reads t n]
  have live: "\<not> ctx_Done ctx (probeTime reads t n)" by blast
  have left: "probeTime reads t n \<le> t + PolicyWaitMaxDuration"
    by (rule order_trans [OF probeTime_mono Suc.prems(3)])
  note Suc.IH [OF retried live left]
  also have "retry_Do ctx t reads ?p
             = retry_Do ctx t reads
                 \<lparr>now = probeTime reads t (Suc n), probes = Suc n,
                  backoff = fibonacciState (NewFibonacci PolicyWaitInitialBackoff) (Suc n)\<rparr>"
  proof -
    obtain latency answer where r: "reads n = (latency, answer)" by (cases "reads n")
    from Suc.prems(1) r obtain err where pr: "probe answer = Retryable err" by fastforce
    have time: "now ?p + latency
                  + min (fibonacciInterval (NewFibonacci PolicyWaitInitialBackoff) (probes ?p))
                        PolicyWaitMaxBackoff
                = probeTime reads t (Suc n)"
      using r by simp
    have "retry_Do ctx t reads ?p
          = retry_Do ctx t reads
              \<lparr>now = now ?p + latency
                       + min (fibonacciInterval (NewFibonacci PolicyWaitInitialBackoff) (probes ?p))
                             PolicyWaitMaxBackoff,
               probes = probes ?p + 1,
               backoff = fibonacciState (NewFibonacci PolicyWaitInitialBackoff) (probes ?p + 1)\<rparr>"
    proof (rule retry_Do_retried [where err = err])
      show "reads (probes ?p) = (latency, answer)" using r by simp
      show "probe answer = Retryable err" by (rule pr)
      show "backoff ?p = fibonacciState (NewFibonacci PolicyWaitInitialBackoff) (probes ?p)" by simp
      show "\<not> ctx_Done ctx (now ?p + latency
                  + min (fibonacciInterval (NewFibonacci PolicyWaitInitialBackoff) (probes ?p))
                        PolicyWaitMaxBackoff)"
        unfolding time by (rule Suc.prems(2))
      show "now ?p + latency
                  + min (fibonacciInterval (NewFibonacci PolicyWaitInitialBackoff) (probes ?p))
                        PolicyWaitMaxBackoff \<le> t + PolicyWaitMaxDuration"
        unfolding time by (rule Suc.prems(3))
    qed
    then show ?thesis unfolding time by simp
  qed
  finally show ?case .
qed


lemma wait_stopped:
  fixes ctx :: Context and options :: WaitForPolicyOptions and t :: nat
  defines "waitCtx \<equiv> if wo_Timeout options > 0 then WithTimeout ctx t (wo_Timeout options) else ctx"
  assumes retried: "\<forall>k<n. \<exists>err. probe (snd (reads k)) = Retryable err"
      and live: "\<not> ctx_Done waitCtx (probeTime reads t n)"
      and left: "probeTime reads t n \<le> t + PolicyWaitMaxDuration"
      and stopped: "probe (snd (reads n)) = Stopped err"
  shows "WaitForPolicyDecision ctx reads options t
         = (Inl err, \<lparr>now = probeTime reads t n + fst (reads n), probes = n + 1,
                      backoff = fibonacciState (NewFibonacci PolicyWaitInitialBackoff) n\<rparr>)"
proof -
  let ?p0 = "\<lparr>now = t, probes = 0, backoff = NewFibonacci PolicyWaitInitialBackoff\<rparr>"
  let ?pn = "\<lparr>now = probeTime reads t n, probes = n,
              backoff = fibonacciState (NewFibonacci PolicyWaitInitialBackoff) n\<rparr>"
  let ?pf = "\<lparr>now = probeTime reads t n + fst (reads n), probes = n + 1,
              backoff = fibonacciState (NewFibonacci PolicyWaitInitialBackoff) n\<rparr>"
  obtain latency answer where r: "reads (probes ?pn) = (latency, answer)"
    by (cases "reads (probes ?pn)")
  from r stopped have pr: "probe answer = Stopped err" by simp
  have l: "\<not> ctx_Done waitCtx (now ?pn)" using live by simp
  have "retry_step waitCtx (policyWaitBackoffStrategy t) reads ?pn
        = Ended (Failed err) (?pn\<lparr>now := now ?pn + latency, probes := probes ?pn + 1\<rparr>)"
    by (rule retry_step_Stopped [where reads = reads, OF l r pr])
  also have "?pn\<lparr>now := now ?pn + latency, probes := probes ?pn + 1\<rparr> = ?pf"
    using r by simp
  finally have "retry_Do waitCtx t reads ?pn = (Failed err, ?pf)"
    by (rule retry_Do_Ended)
  with wait_schedule [OF retried live left]
  have "retry_Do waitCtx t reads ?p0 = (Failed err, ?pf)" by simp
  then show ?thesis
    unfolding waitCtx_def by (rule WaitForPolicyDecision_Inl) simp
qed



lemma retry_step_decided:
  assumes "\<not> ctx_Done ctx (now p)" and "reads (probes p) = (latency, answer)"
      and "\<forall>err. probe answer \<noteq> Retryable err"
  shows "\<exists>out. retry_step ctx b reads p
               = Ended out (p\<lparr>now := now p + latency, probes := probes p + 1\<rparr>)"
  using assms by (cases "probe answer") (simp_all add: retry_step_def Let_def)

lemma wait_decided:
  fixes ctx :: Context and options :: WaitForPolicyOptions and t :: nat
  defines "waitCtx \<equiv> if wo_Timeout options > 0 then WithTimeout ctx t (wo_Timeout options) else ctx"
  assumes retried: "\<forall>k<n. \<exists>err. probe (snd (reads k)) = Retryable err"
      and live: "\<not> ctx_Done waitCtx (probeTime reads t n)"
      and left: "probeTime reads t n \<le> t + PolicyWaitMaxDuration"
      and decided: "\<forall>err. probe (snd (reads n)) \<noteq> Retryable err"
  shows "snd (WaitForPolicyDecision ctx reads options t)
         = \<lparr>now = probeTime reads t n + fst (reads n), probes = n + 1,
            backoff = fibonacciState (NewFibonacci PolicyWaitInitialBackoff) n\<rparr>"
proof -
  let ?p0 = "\<lparr>now = t, probes = 0, backoff = NewFibonacci PolicyWaitInitialBackoff\<rparr>"
  let ?pn = "\<lparr>now = probeTime reads t n, probes = n,
              backoff = fibonacciState (NewFibonacci PolicyWaitInitialBackoff) n\<rparr>"
  let ?pf = "\<lparr>now = probeTime reads t n + fst (reads n), probes = n + 1,
              backoff = fibonacciState (NewFibonacci PolicyWaitInitialBackoff) n\<rparr>"
  obtain latency answer where r: "reads (probes ?pn) = (latency, answer)"
    by (cases "reads (probes ?pn)")
  from r decided have pr: "\<forall>err. probe answer \<noteq> Retryable err" by simp
  have l: "\<not> ctx_Done waitCtx (now ?pn)" using live by simp
  from retry_step_decided [where reads = reads, OF l r pr]
  obtain out where "retry_step waitCtx (policyWaitBackoffStrategy t) reads ?pn
        = Ended out (?pn\<lparr>now := now ?pn + latency, probes := probes ?pn + 1\<rparr>)"
    by blast
  also have "?pn\<lparr>now := now ?pn + latency, probes := probes ?pn + 1\<rparr> = ?pf"
    using r by simp
  finally have "retry_Do waitCtx t reads ?pn = (out, ?pf)"
    by (rule retry_Do_Ended)
  with wait_schedule [OF retried live left]
  have "retry_Do waitCtx t reads ?p0 = (out, ?pf)" by simp
  then show ?thesis
    unfolding WaitForPolicyDecision_state waitCtx_def by simp
qed

section \<open>Terminal statuses during the wait\<close>

text \<open>
  C6. For every call of \<^verbatim>\<open>WaitForPolicyDecision\<close>, with its result and the final state of
  the engine: the first probe is made unless the context is done at the call. A probe
  that was made and shows the run \<^verbatim>\<open>discarded\<close>, \<^verbatim>\<open>canceled\<close> (or \<^verbatim>\<open>force_canceled\<close>) or
  \<^verbatim>\<open>errored\<close> is the last probe, and the call returns the error of that status
  (\<^verbatim>\<open>run was discarded\<close>, \<^verbatim>\<open>run was canceled\<close>, \<^verbatim>\<open>run entered error state\<close>). A probe that was
  made and shows \<^verbatim>\<open>post_plan_awaiting_decision\<close> is followed by another probe, unless the
  time is up (the maximum duration is used up or the context is done), and then the call
  returns \<^verbatim>\<open>still awaiting decision\<close> or the error of the context. A call that returns one
  of the three errors of the terminal statuses made a probe, and its last probe showed
  such a status (or the read itself failed with that error): no timeout is reported so.
  And when the first \<open>n\<close> reads show the run awaiting the decision and the next read shows
  a terminal status, with the time not up, the call ends with that read (no sleep after
  it), after \<open>n + 1\<close> probes, and returns the error of the status.
\<close>

theorem terminal_status_ends_wait:
  fixes ctx :: Context and reads :: "nat \<Rightarrow> nat \<times> (error + Run)"
    and options :: WaitForPolicyOptions and t :: nat
    and waitCtx :: Context and result :: "error + PolicyOverride" and final :: polling
    and terminal :: "(string \<times> error) set"
  defines "waitCtx \<equiv> if wo_Timeout options > 0 then WithTimeout ctx t (wo_Timeout options) else ctx"
      and "result \<equiv> fst (WaitForPolicyDecision ctx reads options t)"
      and "final \<equiv> snd (WaitForPolicyDecision ctx reads options t)"
      and "terminal \<equiv> {(''discarded'', Errorf ''run was discarded''),
                        (''canceled'', Errorf ''run was canceled''),
                        (''force_canceled'', Errorf ''run was canceled''),
                        (''errored'', Errorf ''run entered error state'')}"
  shows "(\<not> ctx_Done waitCtx t \<longrightarrow> 0 < probes final)
       \<and> (k < probes final \<and> snd (reads k) = Inr run \<and> (run_Status run, err) \<in> terminal
            \<longrightarrow> result = Inl err \<and> probes final = k + 1)
       \<and> (k < probes final \<and> snd (reads k) = Inr run
            \<and> run_Status run = ''post_plan_awaiting_decision''
            \<longrightarrow> k + 1 < probes final
                \<or> (probes final = k + 1
                    \<and> (t + PolicyWaitMaxDuration \<le> now final \<or> ctx_Done waitCtx (now final))
                    \<and> (result = Inl (Errorf ''still awaiting decision'')
                        \<or> result = Inl (ctx_Err waitCtx))))
       \<and> (result = Inl err \<and> err \<in> snd ` terminal
            \<longrightarrow> 0 < probes final
                \<and> (snd (reads (probes final - 1)) = Inl err
                    \<or> (\<exists>last. snd (reads (probes final - 1)) = Inr last
                          \<and> (run_Status last, err) \<in> terminal)))
       \<and> ((\<forall>j<n. \<exists>earlier. snd (reads j) = Inr earlier
                       \<and> run_Status earlier = ''post_plan_awaiting_decision'')
            \<and> \<not> ctx_Done waitCtx (probeTime reads t n)
            \<and> probeTime reads t n \<le> t + PolicyWaitMaxDuration
            \<and> snd (reads n) = Inr run \<and> (run_Status run, err) \<in> terminal
            \<longrightarrow> WaitForPolicyDecision ctx reads options t
                = (Inl err,
                   \<lparr>now = probeTime reads t n + fst (reads n), probes = n + 1,
                    backoff = fibonacciState (NewFibonacci PolicyWaitInitialBackoff) n\<rparr>))"
proof -
  let ?p0 = "\<lparr>now = t, probes = 0, backoff = NewFibonacci PolicyWaitInitialBackoff\<rparr>"
  obtain out where run: "retry_Do waitCtx t reads ?p0 = (out, final)"
    unfolding final_def waitCtx_def WaitForPolicyDecision_state
    by (cases "retry_Do (if wo_Timeout options > 0 then WithTimeout ctx t (wo_Timeout options) else ctx)
                 t reads ?p0") simp
  have inl: "result = Inl e" if "out = Failed e \<or> out = TimedOut e" for e
    using WaitForPolicyDecision_Inl [OF run [unfolded waitCtx_def] that]
    by (simp add: result_def)
  have table: "probe (Inr r) = Stopped e" if "(run_Status r, e) \<in> terminal" for r e
    using that unfolding terminal_def by (rule probe_terminal_table)
  have first: "0 < probes final" if "\<not> ctx_Done waitCtx t"
    using retry_Do_first_probe [of waitCtx ?p0 t reads] that run by simp
  have ends: "result = Inl err \<and> probes final = k + 1"
    if "k < probes final" "snd (reads k) = Inr run" "(run_Status run, err) \<in> terminal"
  proof -
    from that(2) table [OF that(3)] have "probe (snd (reads k)) = Stopped err" by simp
    from retry_Do_stopped [OF run _ that(1) this] inl show ?thesis by simp
  qed
  have retried: "k + 1 < probes final
                \<or> (probes final = k + 1
                    \<and> (t + PolicyWaitMaxDuration \<le> now final \<or> ctx_Done waitCtx (now final))
                    \<and> (result = Inl (Errorf ''still awaiting decision'')
                        \<or> result = Inl (ctx_Err waitCtx)))"
    if "k < probes final" "snd (reads k) = Inr run"
       "run_Status run = ''post_plan_awaiting_decision''"
  proof -
    from that(2) probe_terminal(4) [OF that(3)]
    have "probe (snd (reads k)) = Retryable (Errorf ''still awaiting decision'')" by simp
    from retry_Do_retryable [OF run _ that(1) this] inl show ?thesis by auto
  qed
  have distinct: "0 < probes final
                \<and> (snd (reads (probes final - 1)) = Inl err
                    \<or> (\<exists>last. snd (reads (probes final - 1)) = Inr last
                          \<and> (run_Status last, err) \<in> terminal))"
    if res: "result = Inl err" and err: "err \<in> snd ` terminal"
  proof -
    from res have "fst (retry_Do waitCtx t reads ?p0) \<in> {Failed err, TimedOut err}"
      unfolding result_def waitCtx_def by (rule WaitForPolicyDecision_Inl_cases)
    with run have "out = Failed err \<or> out = TimedOut err" by simp
    moreover have "out \<noteq> TimedOut err"
    proof
      assume "out = TimedOut err"
      with run have "retry_Do waitCtx t reads ?p0 = (TimedOut err, final)" by simp
      from retry_Do_TimedOut [OF this] err show False
        unfolding terminal_def by auto
    qed
    ultimately have "retry_Do waitCtx t reads ?p0 = (Failed err, final)" using run by simp
    from retry_Do_Failed [OF this]
    have n: "0 < probes final" and "probe (snd (reads (probes final - 1))) = Stopped err"
      by simp_all
    from probe_Stopped [OF this(2)] n show ?thesis unfolding terminal_def by simp
  qed
  have schedule: "WaitForPolicyDecision ctx reads options t
                = (Inl err,
                   \<lparr>now = probeTime reads t n + fst (reads n), probes = n + 1,
                    backoff = fibonacciState (NewFibonacci PolicyWaitInitialBackoff) n\<rparr>)"
    if awaiting: "\<forall>j<n. \<exists>earlier. snd (reads j) = Inr earlier
                       \<and> run_Status earlier = ''post_plan_awaiting_decision''"
      and live: "\<not> ctx_Done waitCtx (probeTime reads t n)"
      and left: "probeTime reads t n \<le> t + PolicyWaitMaxDuration"
      and last: "snd (reads n) = Inr run" "(run_Status run, err) \<in> terminal"
  proof -
    have r: "\<forall>j<n. \<exists>e. probe (snd (reads j)) = Retryable e"
    proof (intro allI impI)
      fix j assume "j < n"
      with awaiting obtain earlier where "snd (reads j) = Inr earlier"
        and "run_Status earlier = ''post_plan_awaiting_decision''" by blast
      with probe_terminal(4) [of earlier] show "\<exists>e. probe (snd (reads j)) = Retryable e" by simp
    qed
    from last table have s: "probe (snd (reads n)) = Stopped err" by simp
    from wait_stopped [OF r live [unfolded waitCtx_def] left s] show ?thesis .
  qed
  from first ends retried distinct schedule show ?thesis by blast
qed

text \<open>
  A wait whose first read (taking two seconds) shows the run awaiting the decision and
  whose second read (taking one second) shows it discarded: two probes, ten seconds of
  sleep between them, and the error of the discarded run at the end.
\<close>

theorem terminal_status_ends_wait_witness:
  "snd (reads_then_discarded 0) = Inr (run_awaiting ''run-abc123'')
   \<and> run_Status (run_awaiting ''run-abc123'') = ''post_plan_awaiting_decision''
   \<and> probeTime reads_then_discarded 0 1 = 12 * Second
   \<and> snd (reads_then_discarded 1) = Inr run_discarded
   \<and> run_Status run_discarded = ''discarded''
   \<and> WaitForPolicyDecision ctx_Background reads_then_discarded options_wait 0
       = (Inl (Errorf ''run was discarded''),
          \<lparr>now = 13 * Second, probes = 2, backoff = (10 * Second, 10 * Second)\<rparr>)"
proof -
  have first: "snd (reads_then_discarded 0) = Inr (run_awaiting ''run-abc123'')"
    by (simp add: reads_then_discarded_def)
  have shown: "run_Status (run_awaiting ''run-abc123'') = ''post_plan_awaiting_decision''"
    by (simp add: run_awaiting_def)
  from first shown
  have awaiting: "\<forall>j<1. \<exists>earlier. snd (reads_then_discarded j) = Inr earlier
                       \<and> run_Status earlier = ''post_plan_awaiting_decision''"
    by simp
  have time: "probeTime reads_then_discarded 0 1 = 12 * Second"
    by (simp add: reads_then_discarded_def NewFibonacci_def Fibonacci_Next_def
          PolicyWaitInitialBackoff_def PolicyWaitMaxBackoff_def Second_def)
  have ctx: "(if wo_Timeout options_wait > 0
              then WithTimeout ctx_Background 0 (wo_Timeout options_wait) else ctx_Background)
             = ctx_Background"
    by (simp add: options_wait_def)
  have live: "\<not> ctx_Done ctx_Background (probeTime reads_then_discarded 0 1)"
    by (simp add: ctx_Done_def ctx_Background_def)
  have left: "probeTime reads_then_discarded 0 1 \<le> 0 + PolicyWaitMaxDuration"
    unfolding time by (simp add: PolicyWaitMaxDuration_def Minute_def Second_def)
  have last: "snd (reads_then_discarded 1) = Inr run_discarded"
    by (simp add: reads_then_discarded_def)
  have status: "run_Status run_discarded = ''discarded''"
    by (simp add: run_discarded_def)
  have state: "fibonacciState (NewFibonacci PolicyWaitInitialBackoff) 1 = (10 * Second, 10 * Second)"
    by (simp add: NewFibonacci_def Fibonacci_Next_def PolicyWaitInitialBackoff_def)
  have latency: "fst (reads_then_discarded 1) = Second"
    by (simp add: reads_then_discarded_def)
  have member: "(run_Status run_discarded, Errorf ''run was discarded'')
                \<in> {(''discarded'', Errorf ''run was discarded''),
                    (''canceled'', Errorf ''run was canceled''),
                    (''force_canceled'', Errorf ''run was canceled''),
                    (''errored'', Errorf ''run entered error state'')}"
    by (simp add: status)
  note wait = terminal_status_ends_wait
         [where ctx = ctx_Background and reads = reads_then_discarded and options = options_wait
            and t = 0 and n = 1 and k = 1 and run = run_discarded
            and err = "Errorf ''run was discarded''", unfolded ctx]
  have "WaitForPolicyDecision ctx_Background reads_then_discarded options_wait 0
        = (Inl (Errorf ''run was discarded''),
           \<lparr>now = probeTime reads_then_discarded 0 1 + fst (reads_then_discarded 1), probes = 1 + 1,
            backoff = fibonacciState (NewFibonacci PolicyWaitInitialBackoff) 1\<rparr>)"
    by (rule wait [THEN conjunct2, THEN conjunct2, THEN conjunct2, THEN conjunct2, THEN mp])
       (intro conjI awaiting live left last member)
  then have ended: "WaitForPolicyDecision ctx_Background reads_then_discarded options_wait 0
        = (Inl (Errorf ''run was discarded''),
           \<lparr>now = 13 * Second, probes = 2, backoff = (10 * Second, 10 * Second)\<rparr>)"
    unfolding time state latency by simp
  show ?thesis by (intro conjI first shown time last status ended)
qed

section \<open>The bounds of the wait\<close>

lemma two_limits:
  "0 < cap \<Longrightarrow>
   WithMaxDuration timeout start (WithCappedDuration cap Fibonacci_Next) t s = ((nxt, False), s')
   \<Longrightarrow> 0 < nxt \<and> nxt \<le> cap \<and> t + nxt \<le> start + timeout"
  by (auto simp: WithMaxDuration_def WithCappedDuration_def Fibonacci_Next_def Let_def
      split: if_splits prod.splits)

lemma retry_step_Ended_bound:
  assumes step: "retry_step ctx (policyWaitBackoffStrategy start) reads p = Ended out pf"
      and inv: "now p \<le> start + PolicyWaitMaxDuration"
  shows "probes p \<le> probes pf
         \<and> now pf \<le> start + PolicyWaitMaxDuration
                     + (if probes pf = probes p then 0 else fst (reads (probes pf - 1)))"
proof -
  obtain latency answer where r: "reads (probes p) = (latency, answer)"
    by (cases "reads (probes p)")
  obtain nxt stop s' where
    b: "policyWaitBackoffStrategy start (now p + latency) (backoff p) = ((nxt, stop), s')"
    by (cases "policyWaitBackoffStrategy start (now p + latency) (backoff p)") auto
  let ?p1 = "p\<lparr>now := now p + latency, probes := probes p + 1\<rparr>"
  have p1: "probes p \<le> probes ?p1
         \<and> now ?p1 \<le> start + PolicyWaitMaxDuration
                     + (if probes ?p1 = probes p then 0 else fst (reads (probes ?p1 - 1)))"
    using inv r by simp
  show ?thesis
  proof (cases "ctx_Done ctx (now p)")
    case True
    with step have "pf = p" by (simp add: retry_step_def)
    with inv show ?thesis by simp
  next
    case False
    show ?thesis
    proof (cases "probe answer")
      case (Succeeded run)
      with step False r have "pf = ?p1" by (simp add: retry_step_def Let_def)
      with p1 show ?thesis by simp
    next
      case (Stopped err)
      with step False r have "pf = ?p1" by (simp add: retry_step_def Let_def)
      with p1 show ?thesis by simp
    next
      case (Retryable err)
      note eq = retry_step_Retryable [where b = "policyWaitBackoffStrategy start" and reads = reads,
                  OF False r Retryable b]
      show ?thesis
      proof (cases "stop \<or> ctx_Done ctx (now p + latency)")
        case True
        with step eq have "pf = ?p1" by (auto split: if_splits)
        with p1 show ?thesis by simp
      next
        case False
        then have ns: "\<not> stop" and c1: "\<not> ctx_Done ctx (now p + latency)" by simp_all
        from b ns have "policyWaitBackoffStrategy start (now p + latency) (backoff p)
                        = ((nxt, False), s')" by simp
        from strategy_next [OF this]
        have bound: "now p + latency + nxt \<le> start + PolicyWaitMaxDuration" by simp
        from step eq ns c1 have c2: "ctx_Done ctx (now p + latency + nxt)"
          by (auto split: if_splits)
        then obtain d where d: "ctx_doneAt ctx = Some d" "d \<le> now p + latency + nxt"
          by (auto simp add: ctx_Done_def split: option.splits)
        from step eq ns c1 c2 d have "pf = p\<lparr>now := d, probes := probes p + 1\<rparr>"
          by simp
        with d bound show ?thesis by simp
      qed
    qed
  qed
qed

lemma retry_Do_bound:
  "now p \<le> start + PolicyWaitMaxDuration \<Longrightarrow>
   probes p \<le> probes (snd (retry_Do ctx start reads p))
   \<and> now (snd (retry_Do ctx start reads p))
       \<le> start + PolicyWaitMaxDuration
          + (if probes (snd (retry_Do ctx start reads p)) = probes p then 0
             else fst (reads (probes (snd (retry_Do ctx start reads p)) - 1)))"
proof (induction ctx start reads p rule: retry_Do.induct)
  case (1 ctx start reads p)
  show ?case
  proof (cases "retry_step ctx (policyWaitBackoffStrategy start) reads p")
    case (Polling q)
    note q = retry_step_Polling [OF Polling]
    from q have inv: "now q \<le> start + PolicyWaitMaxDuration" by simp
    from "1.IH" [OF Polling inv] q show ?thesis
      by (auto simp add: retry_Do_Polling [OF Polling] split: if_splits)
  next
    case (Ended out q)
    from retry_step_Ended_bound [OF Ended "1.prems"] show ?thesis
      by (auto simp add: retry_Do_Ended [OF Ended] split: if_splits)
  qed
qed

lemma retry_step_Ended_deadline:
  assumes step: "retry_step ctx b reads p = Ended out pf"
      and d: "ctx_doneAt ctx = Some d"
  shows "probes p \<le> probes pf
         \<and> now pf \<le> max d (now p)
                     + (if probes pf = probes p then 0 else fst (reads (probes pf - 1)))"
proof -
  obtain latency answer where r: "reads (probes p) = (latency, answer)"
    by (cases "reads (probes p)")
  obtain nxt stop s' where b: "b (now p + latency) (backoff p) = ((nxt, stop), s')"
    by (cases "b (now p + latency) (backoff p)") auto
  let ?p1 = "p\<lparr>now := now p + latency, probes := probes p + 1\<rparr>"
  show ?thesis
  proof (cases "ctx_Done ctx (now p)")
    case True
    with step have "pf = p" by (simp add: retry_step_def)
    then show ?thesis by simp
  next
    case False
    with d have before: "now p < d" by (simp add: ctx_Done_def)
    then have p1: "probes p \<le> probes ?p1
         \<and> now ?p1 \<le> max d (now p)
                     + (if probes ?p1 = probes p then 0 else fst (reads (probes ?p1 - 1)))"
      using r by simp
    show ?thesis
    proof (cases "probe answer")
      case (Succeeded run)
      with step False r have "pf = ?p1" by (simp add: retry_step_def Let_def)
      with p1 show ?thesis by simp
    next
      case (Stopped err)
      with step False r have "pf = ?p1" by (simp add: retry_step_def Let_def)
      with p1 show ?thesis by simp
    next
      case (Retryable err)
      note eq = retry_step_Retryable [where b = b and reads = reads, OF False r Retryable b]
      show ?thesis
      proof (cases "stop \<or> ctx_Done ctx (now p + latency)")
        case True
        with step eq have "pf = ?p1" by (auto split: if_splits)
        with p1 show ?thesis by simp
      next
        case False
        with step eq d have "pf = p\<lparr>now := d, probes := probes p + 1\<rparr>"
          by (auto split: if_splits)
        then show ?thesis by simp
      qed
    qed
  qed
qed

lemma retry_step_Polling_deadline:
  assumes step: "retry_step ctx b reads p = Polling q"
      and d: "ctx_doneAt ctx = Some d"
  shows "now q < d"
proof -
  obtain latency answer where r: "reads (probes p) = (latency, answer)"
    by (cases "reads (probes p)")
  obtain nxt stop s' where b: "b (now p + latency) (backoff p) = ((nxt, stop), s')"
    by (cases "b (now p + latency) (backoff p)") auto
  from step r b have "\<not> ctx_Done ctx (now p + latency + nxt)"
    and "q = p\<lparr>now := now p + latency + nxt, probes := probes p + 1, backoff := s'\<rparr>"
    by (auto simp: retry_step_def Let_def split: if_splits probe_result.splits)
  with d show ?thesis by (simp add: ctx_Done_def)
qed

lemma retry_Do_deadline:
  "ctx_doneAt ctx = Some d \<Longrightarrow>
   probes p \<le> probes (snd (retry_Do ctx start reads p))
   \<and> now (snd (retry_Do ctx start reads p))
       \<le> max d (now p)
          + (if probes (snd (retry_Do ctx start reads p)) = probes p then 0
             else fst (reads (probes (snd (retry_Do ctx start reads p)) - 1)))"
proof (induction ctx start reads p rule: retry_Do.induct)
  case (1 ctx start reads p)
  show ?case
  proof (cases "retry_step ctx (policyWaitBackoffStrategy start) reads p")
    case (Polling q)
    note q = retry_step_Polling [OF Polling]
    note qd = retry_step_Polling_deadline [OF Polling "1.prems"]
    from "1.IH" [OF Polling "1.prems"] q qd show ?thesis
      by (auto simp add: retry_Do_Polling [OF Polling] max_def split: if_splits)
  next
    case (Ended out q)
    from retry_step_Ended_deadline [OF Ended "1.prems"] show ?thesis
      by (auto simp add: retry_Do_Ended [OF Ended] split: if_splits)
  qed
qed

lemma WithTimeout_doneAt:
  "\<exists>d. ctx_doneAt (WithTimeout ctx t timeout) = Some d \<and> d \<le> t + timeout"
  by (auto simp add: WithTimeout_def split: option.splits)

lemma wait_5s_value:
  "WaitForPolicyDecision ctx_Background reads_then_discarded options_wait_5s 0
   = (Inl ContextDeadlineExceeded,
      \<lparr>now = 5 * Second, probes = 1, backoff = NewFibonacci PolicyWaitInitialBackoff\<rparr>)"
proof -
  let ?ctx = "\<lparr>ctx_doneAt = Some (5 * Second), ctx_canceled = False\<rparr>"
  let ?p0 = "\<lparr>now = 0, probes = 0, backoff = NewFibonacci PolicyWaitInitialBackoff\<rparr>"
  have ctx: "WithTimeout ctx_Background 0 (5 * Second) = ?ctx"
    by (simp add: WithTimeout_def ctx_Background_def)
  have live: "\<not> ctx_Done ?ctx (now ?p0)"
    by (simp add: ctx_Done_def Second_def)
  have r0: "reads_then_discarded (probes ?p0) = (2 * Second, Inr (run_awaiting ''run-abc123''))"
    by (simp add: reads_then_discarded_def)
  have pr: "probe (Inr (run_awaiting ''run-abc123'')) = Retryable (Errorf ''still awaiting decision'')"
    by (rule probe_terminal(4)) (simp add: run_awaiting_def)
  have b: "policyWaitBackoffStrategy 0 (now ?p0 + 2 * Second) (backoff ?p0)
           = ((10 * Second, False), (10 * Second, 10 * Second))"
    using first_interval by simp
  have "retry_step ?ctx (policyWaitBackoffStrategy 0) reads_then_discarded ?p0
        = Ended (TimedOut ContextDeadlineExceeded)
            \<lparr>now = 5 * Second, probes = 1, backoff = NewFibonacci PolicyWaitInitialBackoff\<rparr>"
    using retry_step_Retryable [where b = "policyWaitBackoffStrategy 0"
            and reads = reads_then_discarded, OF live r0 pr b]
    by (simp add: ctx_Done_def ctx_Err_def Second_def)
  from retry_Do_Ended [OF this] have
    "retry_Do (WithTimeout ctx_Background 0 (5 * Second)) 0 reads_then_discarded ?p0
     = (TimedOut ContextDeadlineExceeded,
        \<lparr>now = 5 * Second, probes = 1, backoff = NewFibonacci PolicyWaitInitialBackoff\<rparr>)"
    by (simp only: ctx)
  moreover have "0 < 5 * Second" by (simp add: Second_def)
  ultimately show ?thesis
    by (simp add: WaitForPolicyDecision_def options_wait_5s_def)
qed

text \<open>
  C7. The intervals of the backoff are Fibonacci-shaped from a floor of ten seconds: the
  first is ten seconds, the second twenty, and each later one is the sum of the two
  before it. The \<open>n\<close>-th call of \<^verbatim>\<open>policyWaitBackoffStrategy\<close> stops when thirty minutes have
  passed since the start, and otherwise returns the \<open>n\<close>-th Fibonacci interval, cut to
  thirty seconds and to the time left of the thirty minutes. Whatever the per-step cap
  and the maximum duration are (the two limits are parameters of their own), an interval
  the capped and bounded backoff returns is positive, at most the cap, and ends no later
  than the maximum duration after the start. So the engine never sleeps past the
  deadline, and every call of \<^verbatim>\<open>WaitForPolicyDecision\<close> ends (the loop is a total function)
  no later than thirty minutes after the call plus the time of the last probe; with a
  positive timeout in the options, no later than the timeout after the call plus the time
  of the last probe. The engine follows the schedule: when the first \<open>m\<close> probes are
  retried and the next one is not, with the time not up, the call ends after \<open>m + 1\<close>
  probes, the last of which started at \<open>probeTime reads t m\<close>, the time of the call plus the
  times of the earlier probes and the capped Fibonacci intervals between them.
\<close>

theorem wait_is_bounded:
  fixes ctx :: Context and reads :: "nat \<Rightarrow> nat \<times> (error + Run)"
    and options :: WaitForPolicyOptions and t :: nat and pf :: polling and waitCtx :: Context
  defines "pf \<equiv> snd (WaitForPolicyDecision ctx reads options t)"
      and "waitCtx \<equiv> if wo_Timeout options > 0 then WithTimeout ctx t (wo_Timeout options) else ctx"
  shows "fibonacciInterval (NewFibonacci PolicyWaitInitialBackoff) 0 = 10 * Second
       \<and> fibonacciInterval (NewFibonacci PolicyWaitInitialBackoff) 1 = 20 * Second
       \<and> fibonacciInterval (NewFibonacci base) (Suc (Suc n))
           = fibonacciInterval (NewFibonacci base) (Suc n) + fibonacciInterval (NewFibonacci base) n
       \<and> policyWaitBackoffStrategy start clock
             (fibonacciState (NewFibonacci PolicyWaitInitialBackoff) n)
           = (if start + 30 * Minute \<le> clock then
                ((0, True), fibonacciState (NewFibonacci PolicyWaitInitialBackoff) n)
              else
                ((min (min (fibonacciInterval (NewFibonacci PolicyWaitInitialBackoff) n) (30 * Second))
                      (start + 30 * Minute - clock), False),
                 fibonacciState (NewFibonacci PolicyWaitInitialBackoff) (Suc n)))
       \<and> (0 < cap
            \<and> WithMaxDuration timeout start (WithCappedDuration cap Fibonacci_Next) clock s
                = ((nxt, False), s')
          \<longrightarrow> 0 < nxt \<and> nxt \<le> cap \<and> clock + nxt \<le> start + timeout)
       \<and> (policyWaitBackoffStrategy start clock s = ((nxt, False), s')
          \<longrightarrow> 0 < nxt \<and> nxt \<le> 30 * Second \<and> clock + nxt \<le> start + 30 * Minute)
       \<and> snd (fst (policyWaitBackoffStrategy start clock s)) = (start + 30 * Minute \<le> clock)
       \<and> now pf \<le> t + 30 * Minute + (if probes pf = 0 then 0 else fst (reads (probes pf - 1)))
       \<and> (0 < wo_Timeout options
          \<longrightarrow> now pf \<le> t + wo_Timeout options
                        + (if probes pf = 0 then 0 else fst (reads (probes pf - 1))))
       \<and> ((\<forall>j<m. \<exists>err. probe (snd (reads j)) = Retryable err)
            \<and> (\<forall>err. probe (snd (reads m)) \<noteq> Retryable err)
            \<and> \<not> ctx_Done waitCtx (probeTime reads t m)
            \<and> probeTime reads t m \<le> t + 30 * Minute
          \<longrightarrow> pf = \<lparr>now = probeTime reads t m + fst (reads m), probes = m + 1,
                    backoff = fibonacciState (NewFibonacci PolicyWaitInitialBackoff) m\<rparr>)
       \<and> probeTime reads t 0 = t
       \<and> probeTime reads t (Suc m)
           = probeTime reads t m + fst (reads m)
             + min (fibonacciInterval (NewFibonacci PolicyWaitInitialBackoff) m) (30 * Second)"
proof -
  let ?ctx = "if wo_Timeout options > 0 then WithTimeout ctx t (wo_Timeout options) else ctx"
  let ?p0 = "\<lparr>now = t, probes = 0, backoff = NewFibonacci PolicyWaitInitialBackoff\<rparr>"
  have pf: "pf = snd (retry_Do ?ctx t reads ?p0)"
    unfolding pf_def by (rule WaitForPolicyDecision_state)
  have floor: "fibonacciInterval (NewFibonacci PolicyWaitInitialBackoff) 0 = 10 * Second"
    by (simp add: NewFibonacci_def PolicyWaitInitialBackoff_def Fibonacci_Next_def)
  have second: "fibonacciInterval (NewFibonacci PolicyWaitInitialBackoff) 1 = 20 * Second"
    by (simp add: NewFibonacci_def PolicyWaitInitialBackoff_def Fibonacci_Next_def)
  have shape: "fibonacciInterval (NewFibonacci base) (Suc (Suc n))
           = fibonacciInterval (NewFibonacci base) (Suc n) + fibonacciInterval (NewFibonacci base) n"
    unfolding NewFibonacci_def by (rule fibonacciInterval_rec)
  have strategy: "policyWaitBackoffStrategy start clock
             (fibonacciState (NewFibonacci PolicyWaitInitialBackoff) n)
           = (if start + 30 * Minute \<le> clock then
                ((0, True), fibonacciState (NewFibonacci PolicyWaitInitialBackoff) n)
              else
                ((min (min (fibonacciInterval (NewFibonacci PolicyWaitInitialBackoff) n) (30 * Second))
                      (start + 30 * Minute - clock), False),
                 fibonacciState (NewFibonacci PolicyWaitInitialBackoff) (Suc n)))"
    using strategy_schedule [of start clock n]
    by (simp only: PolicyWaitMaxDuration_def PolicyWaitMaxBackoff_def)
  have limits: "0 < nxt \<and> nxt \<le> cap \<and> clock + nxt \<le> start + timeout"
    if "0 < cap"
      "WithMaxDuration timeout start (WithCappedDuration cap Fibonacci_Next) clock s
         = ((nxt, False), s')"
    using that by (rule two_limits)
  have policy: "0 < nxt \<and> nxt \<le> 30 * Second \<and> clock + nxt \<le> start + 30 * Minute"
    if "policyWaitBackoffStrategy start clock s = ((nxt, False), s')"
    using strategy_next [OF that] by (simp add: PolicyWaitMaxBackoff_def PolicyWaitMaxDuration_def)
  have stop: "snd (fst (policyWaitBackoffStrategy start clock s)) = (start + 30 * Minute \<le> clock)"
    by (simp add: strategy_stop PolicyWaitMaxDuration_def)
  have total: "now pf \<le> t + 30 * Minute + (if probes pf = 0 then 0 else fst (reads (probes pf - 1)))"
    using retry_Do_bound [of ?p0 t ?ctx reads] unfolding pf
    by (simp add: PolicyWaitMaxDuration_def)
  have deadline: "now pf \<le> t + wo_Timeout options
                        + (if probes pf = 0 then 0 else fst (reads (probes pf - 1)))"
    if "0 < wo_Timeout options"
  proof -
    from that have c: "?ctx = WithTimeout ctx t (wo_Timeout options)" by simp
    obtain d where d: "ctx_doneAt ?ctx = Some d" "d \<le> t + wo_Timeout options"
      unfolding c using WithTimeout_doneAt [of ctx t "wo_Timeout options"] by blast
    from retry_Do_deadline [OF d(1), of ?p0 t reads] d(2) show ?thesis
      unfolding pf by (auto split: if_splits)
  qed
  have schedule: "pf = \<lparr>now = probeTime reads t m + fst (reads m), probes = m + 1,
                    backoff = fibonacciState (NewFibonacci PolicyWaitInitialBackoff) m\<rparr>"
    if retried: "\<forall>j<m. \<exists>err. probe (snd (reads j)) = Retryable err"
      and decided: "\<forall>err. probe (snd (reads m)) \<noteq> Retryable err"
      and live: "\<not> ctx_Done waitCtx (probeTime reads t m)"
      and left: "probeTime reads t m \<le> t + 30 * Minute"
  proof -
    from left have l: "probeTime reads t m \<le> t + PolicyWaitMaxDuration"
      by (simp only: PolicyWaitMaxDuration_def)
    from wait_decided [OF retried live [unfolded waitCtx_def] l decided] show ?thesis
      by (simp only: pf_def)
  qed
  have start: "probeTime reads t 0 = t" by simp
  have step: "probeTime reads t (Suc m)
           = probeTime reads t m + fst (reads m)
             + min (fibonacciInterval (NewFibonacci PolicyWaitInitialBackoff) m) (30 * Second)"
    by (simp add: PolicyWaitMaxBackoff_def)
  show ?thesis
  proof (intro conjI impI)
    show "fibonacciInterval (NewFibonacci PolicyWaitInitialBackoff) 0 = 10 * Second" by (rule floor)
    show "fibonacciInterval (NewFibonacci PolicyWaitInitialBackoff) 1 = 20 * Second" by (rule second)
    show "fibonacciInterval (NewFibonacci base) (Suc (Suc n))
           = fibonacciInterval (NewFibonacci base) (Suc n) + fibonacciInterval (NewFibonacci base) n"
      by (rule shape)
    show "policyWaitBackoffStrategy start clock
             (fibonacciState (NewFibonacci PolicyWaitInitialBackoff) n)
           = (if start + 30 * Minute \<le> clock then
                ((0, True), fibonacciState (NewFibonacci PolicyWaitInitialBackoff) n)
              else
                ((min (min (fibonacciInterval (NewFibonacci PolicyWaitInitialBackoff) n) (30 * Second))
                      (start + 30 * Minute - clock), False),
                 fibonacciState (NewFibonacci PolicyWaitInitialBackoff) (Suc n)))"
      by (rule strategy)
    show "snd (fst (policyWaitBackoffStrategy start clock s)) = (start + 30 * Minute \<le> clock)"
      by (rule stop)
    show "now pf \<le> t + 30 * Minute + (if probes pf = 0 then 0 else fst (reads (probes pf - 1)))"
      by (rule total)
    show "probeTime reads t 0 = t" by (rule start)
    show "probeTime reads t (Suc m)
           = probeTime reads t m + fst (reads m)
             + min (fibonacciInterval (NewFibonacci PolicyWaitInitialBackoff) m) (30 * Second)"
      by (rule step)
  next
    assume "0 < cap \<and> WithMaxDuration timeout start (WithCappedDuration cap Fibonacci_Next) clock s
                = ((nxt, False), s')"
    then have l: "0 < nxt \<and> nxt \<le> cap \<and> clock + nxt \<le> start + timeout"
      using limits by blast
    from l show "0 < nxt" by simp
    from l show "nxt \<le> cap" by simp
    from l show "clock + nxt \<le> start + timeout" by simp
  next
    assume "policyWaitBackoffStrategy start clock s = ((nxt, False), s')"
    from policy [OF this] show "0 < nxt" "nxt \<le> 30 * Second" "clock + nxt \<le> start + 30 * Minute"
      by simp_all
  next
    assume "0 < wo_Timeout options"
    then show "now pf \<le> t + wo_Timeout options
                        + (if probes pf = 0 then 0 else fst (reads (probes pf - 1)))"
      by (rule deadline)
  next
    assume "(\<forall>j<m. \<exists>err. probe (snd (reads j)) = Retryable err)
            \<and> (\<forall>err. probe (snd (reads m)) \<noteq> Retryable err)
            \<and> \<not> ctx_Done waitCtx (probeTime reads t m)
            \<and> probeTime reads t m \<le> t + 30 * Minute"
    then show "pf = \<lparr>now = probeTime reads t m + fst (reads m), probes = m + 1,
                    backoff = fibonacciState (NewFibonacci PolicyWaitInitialBackoff) m\<rparr>"
      using schedule by blast
  qed
qed

text \<open>
  A wait with a timeout of five seconds whose first read takes two seconds: the first
  interval is ten seconds, the deadline falls into it, and the wait ends at five seconds
  after one probe. Without the timeout the second probe starts at twelve seconds and the
  wait ends at thirteen.
\<close>

theorem wait_is_bounded_witness:
  "probes (snd (WaitForPolicyDecision ctx_Background reads_then_discarded options_wait_5s 0)) = 1
   \<and> fst (reads_then_discarded 0) = 2 * Second
   \<and> now (snd (WaitForPolicyDecision ctx_Background reads_then_discarded options_wait_5s 0))
       \<le> 0 + 5 * Second + 2 * Second
   \<and> now (snd (WaitForPolicyDecision ctx_Background reads_then_discarded options_wait_5s 0))
       \<le> 0 + 30 * Minute + 2 * Second
   \<and> policyWaitBackoffStrategy 0 (2 * Second) (NewFibonacci PolicyWaitInitialBackoff)
       = ((10 * Second, False), (10 * Second, 10 * Second))
   \<and> 10 * Second \<le> 30 * Second \<and> 2 * Second + 10 * Second \<le> 0 + 30 * Minute
   \<and> probeTime reads_then_discarded 0 1 = 12 * Second
   \<and> snd (WaitForPolicyDecision ctx_Background reads_then_discarded options_wait 0)
       = \<lparr>now = 13 * Second, probes = 2, backoff = (10 * Second, 10 * Second)\<rparr>"
proof -
  let ?pf = "snd (WaitForPolicyDecision ctx_Background reads_then_discarded options_wait_5s 0)"
  have positive: "0 < wo_Timeout options_wait_5s"
    by (simp add: options_wait_5s_def Second_def)
  have timeout: "wo_Timeout options_wait_5s = 5 * Second"
    by (simp add: options_wait_5s_def)
  have r0: "fst (reads_then_discarded 0) = 2 * Second"
    by (simp add: reads_then_discarded_def)
  have one: "probes ?pf = 1"
    by (simp add: wait_5s_value)
  note bounded = wait_is_bounded [where ctx = ctx_Background and reads = reads_then_discarded
         and options = options_wait_5s and t = 0 and start = 0 and clock = "2 * Second"
         and s = "NewFibonacci PolicyWaitInitialBackoff" and nxt = "10 * Second"
         and s' = "(10 * Second, 10 * Second)" and m = 0 and n = 0 and base = 0
         and cap = 0 and timeout = 0]
  note rest = bounded [THEN conjunct2, THEN conjunct2, THEN conjunct2, THEN conjunct2,
                THEN conjunct2]
  have interval: "0 < 10 * Second \<and> 10 * Second \<le> 30 * Second
                  \<and> 2 * Second + 10 * Second \<le> 0 + 30 * Minute"
    by (rule rest [THEN conjunct1, THEN mp]) (rule first_interval)
  have total: "now ?pf \<le> 0 + 30 * Minute
                 + (if probes ?pf = 0 then 0 else fst (reads_then_discarded (probes ?pf - 1)))"
    by (rule rest [THEN conjunct2, THEN conjunct2, THEN conjunct1])
  have deadline: "now ?pf \<le> 0 + wo_Timeout options_wait_5s
                 + (if probes ?pf = 0 then 0 else fst (reads_then_discarded (probes ?pf - 1)))"
    by (rule rest [THEN conjunct2, THEN conjunct2, THEN conjunct2, THEN conjunct1, THEN mp])
       (rule positive)
  have time: "probeTime reads_then_discarded 0 1 = 12 * Second"
    by (simp add: reads_then_discarded_def NewFibonacci_def Fibonacci_Next_def
          PolicyWaitInitialBackoff_def PolicyWaitMaxBackoff_def Second_def)
  have ctx: "(if wo_Timeout options_wait > 0
              then WithTimeout ctx_Background 0 (wo_Timeout options_wait) else ctx_Background)
             = ctx_Background"
    by (simp add: options_wait_def)
  have "probe (snd (reads_then_discarded 0)) = Retryable (Errorf ''still awaiting decision'')"
    using probe_terminal(4) [of "run_awaiting ''run-abc123''"]
    by (simp add: reads_then_discarded_def run_awaiting_def)
  then have retried: "\<forall>j<1. \<exists>err. probe (snd (reads_then_discarded j)) = Retryable err"
    by simp
  have "probe (snd (reads_then_discarded 1)) = Stopped (Errorf ''run was discarded'')"
    using probe_terminal(1) [of run_discarded]
    by (simp add: reads_then_discarded_def run_discarded_def)
  then have decided: "\<forall>err. probe (snd (reads_then_discarded 1)) \<noteq> Retryable err"
    by simp
  have live: "\<not> ctx_Done ctx_Background (probeTime reads_then_discarded 0 1)"
    by (simp add: ctx_Done_def ctx_Background_def)
  have left: "probeTime reads_then_discarded 0 1 \<le> 0 + 30 * Minute"
    unfolding time by (simp add: Minute_def Second_def)
  have state: "fibonacciState (NewFibonacci PolicyWaitInitialBackoff) 1 = (10 * Second, 10 * Second)"
    by (simp add: NewFibonacci_def Fibonacci_Next_def PolicyWaitInitialBackoff_def)
  have latency: "fst (reads_then_discarded 1) = Second"
    by (simp add: reads_then_discarded_def)
  note scheduled = wait_is_bounded [where ctx = ctx_Background and reads = reads_then_discarded
         and options = options_wait and t = 0 and m = 1 and start = 0 and clock = 0
         and s = "(0, 0)" and nxt = 0 and s' = "(0, 0)" and n = 0 and base = 0
         and cap = 0 and timeout = 0, unfolded ctx]
  have "snd (WaitForPolicyDecision ctx_Background reads_then_discarded options_wait 0)
        = \<lparr>now = probeTime reads_then_discarded 0 1 + fst (reads_then_discarded 1),
           probes = 1 + 1,
           backoff = fibonacciState (NewFibonacci PolicyWaitInitialBackoff) 1\<rparr>"
    by (rule scheduled [THEN conjunct2, THEN conjunct2, THEN conjunct2, THEN conjunct2,
                THEN conjunct2, THEN conjunct2, THEN conjunct2, THEN conjunct2, THEN conjunct2,
                THEN conjunct1, THEN mp])
       (intro conjI retried decided live left)
  then have final: "snd (WaitForPolicyDecision ctx_Background reads_then_discarded options_wait 0)
        = \<lparr>now = 13 * Second, probes = 2, backoff = (10 * Second, 10 * Second)\<rparr>"
    unfolding time state latency by simp
  show ?thesis
  proof (intro conjI)
    show "probes ?pf = 1" by (rule one)
    show "fst (reads_then_discarded 0) = 2 * Second" by (rule r0)
    show "now ?pf \<le> 0 + 5 * Second + 2 * Second"
      using deadline by (simp only: one timeout) (simp add: r0)
    show "now ?pf \<le> 0 + 30 * Minute + 2 * Second"
      using total by (simp only: one) (simp add: r0)
    show "policyWaitBackoffStrategy 0 (2 * Second) (NewFibonacci PolicyWaitInitialBackoff)
          = ((10 * Second, False), (10 * Second, 10 * Second))"
      by (rule first_interval)
    show "10 * Second \<le> 30 * Second" using interval by simp
    show "2 * Second + 10 * Second \<le> 0 + 30 * Minute" using interval by simp
    show "probeTime reads_then_discarded 0 1 = 12 * Second" by (rule time)
    show "snd (WaitForPolicyDecision ctx_Background reads_then_discarded options_wait 0)
          = \<lparr>now = 13 * Second, probes = 2, backoff = (10 * Second, 10 * Second)\<rparr>"
      by (rule final)
  qed
qed

end
